theory Spec2Isabelle
  imports Complex_Main "HOL-Library.Multiset"
begin

section \<open>Python values and exceptions\<close>

text \<open>
  The exceptions the modelled code can raise. A function that can raise returns
  \<open>error + 'a\<close>, with \<open>Inl\<close> for the exception.
\<close>

datatype error = ValueError | TypeError | ZeroDivisionError | AttributeError | RuntimeError

text \<open>
  The attributes of an Action are dynamically typed: numbers when the Action is generated
  from a script command, text (or \<open>None\<close> for a short row) when it is read from a
  sequence file. Python's \<open>float\<close> is idealised as a rational number throughout.
\<close>

datatype pyval = PNone | PStr string | PInt int | PFloat rat

section \<open>Strings\<close>

text \<open>\<open>s.split(c)\<close> for a one-character separator: every occurrence splits.\<close>

fun split_on :: "char \<Rightarrow> string \<Rightarrow> string list" where
  "split_on c [] = [[]]"
| "split_on c (x # xs) =
     (if x = c then [] # split_on c xs
      else (case split_on c xs of [] \<Rightarrow> [[x]] | p # ps \<Rightarrow> (x # p) # ps))"

text \<open>\<open>s.split(c, maxsplit=n)\<close>: at most \<open>n\<close> splits, the rest stays whole.\<close>

fun split_max :: "char \<Rightarrow> nat \<Rightarrow> string \<Rightarrow> string list" where
  "split_max c 0 s = [s]"
| "split_max c (Suc n) [] = [[]]"
| "split_max c (Suc n) (x # xs) =
     (if x = c then [] # split_max c n xs
      else (case split_max c (Suc n) xs of [] \<Rightarrow> [[x]] | p # ps \<Rightarrow> (x # p) # ps))"

definition is_space :: "char \<Rightarrow> bool" where
  "is_space c = (c \<in> set [CHR '' '', CHR 0x09, CHR 0x0A, CHR 0x0B, CHR 0x0C, CHR 0x0D])"

definition strip :: "string \<Rightarrow> string" where
  "strip s = rev (dropWhile is_space (rev (dropWhile is_space s)))"

definition is_digit :: "char \<Rightarrow> bool" where
  "is_digit c = (48 \<le> (of_char c :: nat) \<and> (of_char c :: nat) \<le> 57)"

definition digit_val :: "char \<Rightarrow> nat" where
  "digit_val c = of_char c - 48"

definition digit_char :: "nat \<Rightarrow> char" where
  "digit_char n = char_of (48 + n)"

text \<open>The value of a string of decimal digits, most significant first.\<close>

fun digits_val :: "nat \<Rightarrow> string \<Rightarrow> nat" where
  "digits_val acc [] = acc"
| "digits_val acc (c # cs) = digits_val (10 * acc + digit_val c) cs"

text \<open>
  Digit groups may be joined by single underscores (\<open>int('1_000')\<close>); an underscore at
  either end, or two in a row, is malformed.
\<close>

fun drop_underscores :: "string \<Rightarrow> string option" where
  "drop_underscores [] = Some []"
| "drop_underscores [c] = (if is_digit c then Some [c] else None)"
| "drop_underscores (c # d # cs) =
     (if is_digit c then
        (if d = CHR ''_'' then
           (case cs of [] \<Rightarrow> None
            | e # es \<Rightarrow> if is_digit e then map_option ((#) c) (drop_underscores cs) else None)
         else map_option ((#) c) (drop_underscores (d # cs)))
      else None)"

definition unsigned_digits :: "string \<Rightarrow> nat option" where
  "unsigned_digits s =
     (if s = [] then None else map_option (digits_val 0) (drop_underscores s))"

text \<open>
  \<open>int(s)\<close> on text: surrounding whitespace is dropped, one sign is allowed, the rest
  must be decimal digits. Anything else raises \<open>ValueError\<close>.
\<close>

definition py_int :: "string \<Rightarrow> error + int" where
  "py_int s =
     (case strip s of
        [] \<Rightarrow> Inl ValueError
      | c # cs \<Rightarrow>
          if c = CHR ''-'' then
            (case unsigned_digits cs of None \<Rightarrow> Inl ValueError | Some n \<Rightarrow> Inr (- int n))
          else if c = CHR ''+'' then
            (case unsigned_digits cs of None \<Rightarrow> Inl ValueError | Some n \<Rightarrow> Inr (int n))
          else
            (case unsigned_digits (c # cs) of None \<Rightarrow> Inl ValueError | Some n \<Rightarrow> Inr (int n)))"

text \<open>
  \<open>float(s)\<close> on a plain decimal literal: optional sign, digits, optional fraction
  (\<open>12\<close>, \<open>12.5\<close>, \<open>.5\<close>, \<open>12.\<close>). Exponents, \<open>inf\<close> and \<open>nan\<close> have no value in this
  idealisation and are not part of the model.
\<close>

definition unsigned_decimal :: "string \<Rightarrow> rat option" where
  "unsigned_decimal s =
     (case split_on CHR ''.'' s of
        [w] \<Rightarrow> map_option (\<lambda>n. of_nat n) (unsigned_digits w)
      | [w, f] \<Rightarrow>
          (if w = [] \<and> f = [] then None
           else
             (case (if w = [] then Some 0 else unsigned_digits w,
                    if f = [] then Some [] else drop_underscores f) of
                (Some n, Some fd) \<Rightarrow>
                  Some (of_nat n + of_nat (digits_val 0 fd) / of_nat (10 ^ length fd))
              | _ \<Rightarrow> None))
      | _ \<Rightarrow> None)"

definition py_float :: "string \<Rightarrow> error + rat" where
  "py_float s =
     (case strip s of
        [] \<Rightarrow> Inl ValueError
      | c # cs \<Rightarrow>
          if c = CHR ''-'' then
            (case unsigned_decimal cs of None \<Rightarrow> Inl ValueError | Some q \<Rightarrow> Inr (- q))
          else if c = CHR ''+'' then
            (case unsigned_decimal cs of None \<Rightarrow> Inl ValueError | Some q \<Rightarrow> Inr q)
          else
            (case unsigned_decimal (c # cs) of None \<Rightarrow> Inl ValueError | Some q \<Rightarrow> Inr q))"

text \<open>Decimal rendering of a natural number, and zero padding on the left.\<close>

fun digits_of :: "nat \<Rightarrow> string" where
  "digits_of n = (if n < 10 then [digit_char n] else digits_of (n div 10) @ [digit_char (n mod 10)])"

declare digits_of.simps [simp del]

definition zero_pad :: "nat \<Rightarrow> string \<Rightarrow> string" where
  "zero_pad w s = replicate (w - length s) CHR ''0'' @ s"

text \<open>\<open>str(i)\<close> for an integer.\<close>

definition str_int :: "int \<Rightarrow> string" where
  "str_int i = (if i < 0 then CHR ''-'' # digits_of (nat (- i)) else digits_of (nat i))"

section \<open>datetime and timedelta\<close>

text \<open>
  A \<open>timedelta\<close> is a whole number of microseconds. A \<open>datetime\<close> (always UTC in this
  program) is the instant it denotes: its proleptic Gregorian day ordinal times the
  microseconds of a day, plus the microseconds since midnight. Comparison and
  subtraction of datetimes, and adding a timedelta, are then integer operations. The
  calendar fields are needed where the program formats a datetime or builds one from
  parsed fields.
\<close>

type_synonym timedelta = int
type_synonym datetime = int

definition DAY_US :: int where
  "DAY_US = 86400000000"

definition is_leap :: "int \<Rightarrow> bool" where
  "is_leap y = (y mod 4 = 0 \<and> (y mod 100 \<noteq> 0 \<or> y mod 400 = 0))"

definition days_before_year :: "int \<Rightarrow> int" where
  "days_before_year year = (let y = year - 1 in y * 365 + y div 4 - y div 100 + y div 400)"

definition DAYS_IN_MONTH :: "int list" where
  "DAYS_IN_MONTH = [31, 28, 31, 30, 31, 30, 31, 31, 30, 31, 30, 31]"

definition DAYS_BEFORE_MONTH :: "int list" where
  "DAYS_BEFORE_MONTH = [0, 31, 59, 90, 120, 151, 181, 212, 243, 273, 304, 334]"

text \<open>Both tables are read at a month between 1 and 12 only.\<close>

definition days_in_month :: "int \<Rightarrow> int \<Rightarrow> int" where
  "days_in_month year month =
     (if month = 2 \<and> is_leap year then 29 else DAYS_IN_MONTH ! nat (month - 1))"

definition days_before_month :: "int \<Rightarrow> int \<Rightarrow> int" where
  "days_before_month year month =
     DAYS_BEFORE_MONTH ! nat (month - 1) + (if month > 2 \<and> is_leap year then 1 else 0)"

definition ymd2ord :: "int \<Rightarrow> int \<Rightarrow> int \<Rightarrow> int" where
  "ymd2ord year month day = days_before_year year + days_before_month year month + day"

text \<open>
  The month and the day of day number \<open>n\<close> (from 0) of a year: a first estimate of the
  month, one too large at times, then corrected.
\<close>

definition month_day :: "bool \<Rightarrow> int \<Rightarrow> int \<times> int" where
  "month_day leapyear n =
     (let month = (n + 50) div 32;
          preceding = DAYS_BEFORE_MONTH ! nat (month - 1)
                      + (if month > 2 \<and> leapyear then 1 else 0)
      in if preceding > n
         then (let month = month - 1;
                   preceding = preceding
                     - (DAYS_IN_MONTH ! nat (month - 1)
                        + (if month = 2 \<and> leapyear then 1 else 0))
               in (month, n - preceding + 1))
         else (month, n - preceding + 1))"

text \<open>The calendar date of a day ordinal, by 400-, 100-, 4- and 1-year cycles.\<close>

definition ord2ymd :: "int \<Rightarrow> int \<times> int \<times> int" where
  "ord2ymd ordinal =
     (let n = ordinal - 1;
          n400 = n div 146097; n = n mod 146097;
          n100 = n div 36524; n = n mod 36524;
          n4 = n div 1461; n = n mod 1461;
          n1 = n div 365; n = n mod 365;
          year = n400 * 400 + 1 + n100 * 100 + n4 * 4 + n1
      in if n1 = 4 \<or> n100 = 4 then (year - 1, 12, 31)
         else
           (let leapyear = (n1 = 3 \<and> (n4 \<noteq> 24 \<or> n100 = 3))
            in case month_day leapyear n of (month, day) \<Rightarrow> (year, month, day)))"

text \<open>
  The \<open>datetime(year, month, day, hour, minute, second, microsecond)\<close> constructor:
  every field is range-checked, a field out of range raises \<open>ValueError\<close>.
\<close>

definition datetime_new :: "int \<Rightarrow> int \<Rightarrow> int \<Rightarrow> int \<Rightarrow> int \<Rightarrow> int \<Rightarrow> int \<Rightarrow> error + datetime" where
  "datetime_new year month day hour minute second microsecond =
     (if \<not> (1 \<le> year \<and> year \<le> 9999) then Inl ValueError
      else if \<not> (1 \<le> month \<and> month \<le> 12) then Inl ValueError
      else if \<not> (1 \<le> day \<and> day \<le> days_in_month year month) then Inl ValueError
      else if \<not> (0 \<le> hour \<and> hour \<le> 23) then Inl ValueError
      else if \<not> (0 \<le> minute \<and> minute \<le> 59) then Inl ValueError
      else if \<not> (0 \<le> second \<and> second \<le> 59) then Inl ValueError
      else if \<not> (0 \<le> microsecond \<and> microsecond \<le> 999999) then Inl ValueError
      else Inr (ymd2ord year month day * DAY_US
                + ((hour * 60 + minute) * 60 + second) * 1000000 + microsecond))"

text \<open>The datetimes Python can represent: years 1 to 9999.\<close>

definition dt_valid :: "datetime \<Rightarrow> bool" where
  "dt_valid t = (1 \<le> t div DAY_US \<and> t div DAY_US \<le> 3652059)"

text \<open>\<open>strftime\<close> with the two formats the program uses.\<close>

definition strftime_Ymd :: "datetime \<Rightarrow> string" where
  "strftime_Ymd t =
     (case ord2ymd (t div DAY_US) of
        (y, m, d) \<Rightarrow>
          zero_pad 4 (digits_of (nat y)) @ ''/'' @ zero_pad 2 (digits_of (nat m)) @ ''/''
          @ zero_pad 2 (digits_of (nat d)))"

definition strftime_HMSf :: "datetime \<Rightarrow> string" where
  "strftime_HMSf t =
     (let us = t mod DAY_US;
          s = us div 1000000
      in zero_pad 2 (digits_of (nat (s div 3600))) @ '':''
         @ zero_pad 2 (digits_of (nat (s div 60 mod 60))) @ '':''
         @ zero_pad 2 (digits_of (nat (s mod 60))) @ ''.''
         @ zero_pad 6 (digits_of (nat (us mod 1000000))))"

text \<open>
  \<open>timedelta * float\<close>: the exact product is rounded to the nearest microsecond, a tie
  going to the even neighbour.
\<close>

definition divide_and_round :: "int \<Rightarrow> int \<Rightarrow> int" where
  "divide_and_round a b =
     (let q = a div b; r = 2 * (a mod b);
          greater_than_half = (if b > 0 then r > b else r < b)
      in if greater_than_half \<or> (r = b \<and> q mod 2 = 1) then q + 1 else q)"

definition td_mul :: "timedelta \<Rightarrow> rat \<Rightarrow> timedelta" where
  "td_mul d x = (case quotient_of x of (a, b) \<Rightarrow> divide_and_round (d * a) b)"

section \<open>strconv\<close>

definition format_date :: "datetime \<Rightarrow> string" where
  "format_date date = strftime_Ymd date"

text \<open>\<open>strftime('%H:%M:%S.%f')[:-5]\<close>: the last five characters are cut off.\<close>

definition format_time :: "datetime \<Rightarrow> string" where
  "format_time time = (let s = strftime_HMSf time in take (length s - 5) s)"

text \<open>
  \<open>parse_date_time\<close>: every failure inside the \<open>try\<close> block is a \<open>ValueError\<close> (an
  unpacking of the wrong number of parts, \<open>int\<close> of a non-number, a field out of range)
  and is raised again as \<open>ValueError\<close>.
\<close>

definition parse_date_time :: "string \<Rightarrow> string \<Rightarrow> error + datetime" where
  "parse_date_time date_str time_str =
     (case map py_int (split_on CHR ''/'' date_str) of
        [Inr y4, Inr m2, Inr d2] \<Rightarrow>
          (case split_on CHR '':'' time_str of
             [hh, mm, ss] \<Rightarrow>
               (case (py_int hh, py_int mm) of
                  (Inr hh, Inr mm) \<Rightarrow>
                    (case split_on CHR ''.'' ss of
                       [ss, tenths] \<Rightarrow>
                         (case (py_int ss, py_int tenths) of
                            (Inr ss, Inr tenths) \<Rightarrow>
                              (case datetime_new y4 m2 d2 hh mm ss (tenths * 100000) of
                                 Inr t \<Rightarrow> Inr t
                               | Inl _ \<Rightarrow> Inl ValueError)
                          | _ \<Rightarrow> Inl ValueError)
                     | _ \<Rightarrow> Inl ValueError)
                | _ \<Rightarrow> Inl ValueError)
           | _ \<Rightarrow> Inl ValueError)
      | _ \<Rightarrow> Inl ValueError)"

section \<open>Actions\<close>

datatype action =
    ActionTakePic datetime pyval pyval pyval pyval
  | ActionPlay datetime pyval pyval

fun time_of :: "action \<Rightarrow> datetime" where
  "time_of (ActionTakePic time shutter aperture iso' comment) = time"
| "time_of (ActionPlay time soundfile comment) = time"

text \<open>
  \<open>as_dict\<close> followed by the row the \<open>DictWriter\<close> makes of it, in the order of
  \<open>FIELD_NAMES\<close>: a key the dictionary lacks is written as the empty string, \<open>None\<close> as
  the empty string, text as it is and a number through \<open>str\<close>. The text of a float is
  the parameter \<open>frepr\<close>.
\<close>

definition FIELD_NAMES :: "string list" where
  "FIELD_NAMES = [''date'', ''time_utc'', ''action'', ''shutter_speed'', ''aperture'', ''iso'',
                  ''file'', ''comment'']"

fun csv_text :: "(rat \<Rightarrow> string) \<Rightarrow> pyval \<Rightarrow> string" where
  "csv_text frepr PNone = []"
| "csv_text frepr (PStr s) = s"
| "csv_text frepr (PInt i) = str_int i"
| "csv_text frepr (PFloat x) = frepr x"

fun as_row :: "(rat \<Rightarrow> string) \<Rightarrow> action \<Rightarrow> string list" where
  "as_row frepr (ActionTakePic time shutter aperture iso' comment) =
     [format_date time, format_time time, ''PICT'', csv_text frepr shutter,
      csv_text frepr aperture, csv_text frepr iso', [], csv_text frepr comment]"
| "as_row frepr (ActionPlay time soundfile comment) =
     [format_date time, format_time time, ''PLAY'', [], [], [], csv_text frepr soundfile,
      csv_text frepr comment]"

section \<open>Sequence\<close>

text \<open>
  A Sequence holds one attribute, the list \<open>actions\<close>. \<open>sorted\<close> compares Actions by
  \<open>__lt__\<close>, that is by time, and is stable; \<open>sort_key\<close> is the stable sort by a key.
\<close>

definition Sequence_init :: "action list \<Rightarrow> action list" where
  "Sequence_init actions = sort_key time_of actions"

text \<open>
  The sequence file is modelled at the level of the \<open>csv\<close> module's rows: a row is the
  list of its fields. \<open>write_csv\<close> writes the header row, then one row per Action.
\<close>

definition write_csv :: "(rat \<Rightarrow> string) \<Rightarrow> action list \<Rightarrow> string list list" where
  "write_csv frepr actions = FIELD_NAMES # map (as_row frepr) actions"

text \<open>
  \<open>csv_row[F_X]\<close> on a \<open>DictReader\<close> row with the fixed \<open>FIELD_NAMES\<close>: a field the
  row is too short for reads as \<open>None\<close>.
\<close>

definition field :: "string list \<Rightarrow> nat \<Rightarrow> pyval" where
  "field row i = (if i < length row then PStr (row ! i) else PNone)"

definition make_action :: "string list \<Rightarrow> error + action option" where
  "make_action csv_row =
     (if field csv_row 0 = PStr ''date'' then Inr None
      else
        (case (field csv_row 0, field csv_row 1) of
           (PStr date_str, PStr time_str) \<Rightarrow>
             (case parse_date_time date_str time_str of
                Inl e \<Rightarrow> Inl e
              | Inr time \<Rightarrow>
                  (let action = field csv_row 2;
                       shutter = field csv_row 3;
                       aperture = field csv_row 4;
                       iso' = field csv_row 5;
                       file = field csv_row 6;
                       comment = field csv_row 7
                   in if action = PStr ''PICT''
                      then Inr (Some (ActionTakePic time shutter aperture iso' comment))
                      else if action = PStr ''PLAY''
                      then Inr (Some (ActionPlay time file comment))
                      else Inr None))
         | _ \<Rightarrow> Inl AttributeError))"

text \<open>
  \<open>read_csv\<close>: the reader passes over empty rows; an exception of \<open>_make_action\<close> is
  not caught and ends the read; an Action object is always true, so every Action made
  is appended.
\<close>

fun read_rows :: "string list list \<Rightarrow> action list \<Rightarrow> error + action list" where
  "read_rows [] actions = Inr actions"
| "read_rows (row # rows) actions =
     (if row = [] then read_rows rows actions
      else
        (case make_action row of
           Inl e \<Rightarrow> Inl e
         | Inr None \<Rightarrow> read_rows rows actions
         | Inr (Some action) \<Rightarrow> read_rows rows (actions @ [action])))"

definition read_csv :: "string list list \<Rightarrow> error + action list" where
  "read_csv file = read_rows file []"

section \<open>EventManager\<close>

text \<open>
  \<open>sub_search\<close> walks the indexed items and keeps the last one that passed the check,
  stopping at the first that fails; its result \<open>(None, None)\<close> is \<open>None\<close> here.
\<close>

fun sub_search ::
  "('a \<Rightarrow> 'k) \<Rightarrow> ('k \<Rightarrow> bool) \<Rightarrow> (nat \<times> 'a) list \<Rightarrow> (nat \<times> 'a) option \<Rightarrow> (nat \<times> 'a) option" where
  "sub_search key check [] found = found"
| "sub_search key check ((i, item) # rest) found =
     (if check (key item) then sub_search key check rest (Some (i, item)) else found)"

definition find_bounds ::
  "'a list \<Rightarrow> 'k::linorder \<Rightarrow> ('a \<Rightarrow> 'k) \<Rightarrow> (nat \<times> 'a) option \<times> (nat \<times> 'a) option" where
  "find_bounds sequence target key =
     (let seq_forward = enumerate 0 sequence;
          seq_reverse = rev seq_forward
      in (sub_search key (\<lambda>x. x \<le> target) seq_forward None,
          sub_search key (\<lambda>x. x \<ge> target) seq_reverse None))"

record event_manager =
  events :: "string \<rightharpoonup> datetime"
  pre_magnitudes :: "(rat \<times> datetime) list"
  post_magnitudes :: "(rat \<times> datetime) list"
  max_magnitude :: rat

text \<open>The constructor: the post table is reversed, a missing or zero maximum is 1.\<close>

definition EventManager_init ::
  "(string \<rightharpoonup> datetime) \<Rightarrow> (rat \<times> datetime) list \<Rightarrow> (rat \<times> datetime) list \<Rightarrow> rat option
   \<Rightarrow> event_manager" where
  "EventManager_init evs pre_mags post_mags max_mag =
     \<lparr> events = evs, pre_magnitudes = pre_mags, post_magnitudes = rev post_mags,
       max_magnitude = (case max_mag of None \<Rightarrow> 1 | Some m \<Rightarrow> if m = 0 then 1 else m) \<rparr>"

text \<open>
  \<open>get_magnitude_time\<close>: unpacking \<open>(lo_m, lo_t)\<close> from a bound that was not found
  raises \<open>TypeError\<close>; two different bounds of equal magnitude divide by zero.
\<close>

definition get_magnitude_time :: "event_manager \<Rightarrow> rat \<Rightarrow> bool \<Rightarrow> error + datetime" where
  "get_magnitude_time ev magnitude post =
     (let mags = (if post then post_magnitudes ev else pre_magnitudes ev)
      in case find_bounds mags magnitude fst of
           (lo, hi) \<Rightarrow>
             (case lo of
                None \<Rightarrow> Inl TypeError
              | Some (lo_i, (lo_m, lo_t)) \<Rightarrow>
                  (case hi of
                     None \<Rightarrow> Inl TypeError
                   | Some (hi_i, (hi_m, hi_t)) \<Rightarrow>
                       if lo_i = hi_i then Inr lo_t
                       else
                         (let delta_m = hi_m - lo_m
                          in if delta_m = 0 then Inl ZeroDivisionError
                             else
                               (let percent = (magnitude - lo_m) / delta_m;
                                    offset_t = td_mul (hi_t - lo_t) percent
                                in Inr (lo_t + offset_t))))))"

text \<open>
  The truth value of a datetime in \<open>if time:\<close>: the class defines neither \<open>__bool__\<close>
  nor \<open>__len__\<close>, so every datetime is true.
\<close>

definition datetime_truth :: "datetime \<Rightarrow> bool" where
  "datetime_truth t = True"

text \<open>
  \<open>get_time\<close> called on one of the literal names \<open>C1\<close> to \<open>C4\<close>: the name has no
  space, so neither magnitude case can match, and the result is the table entry or
  \<open>None\<close>.
\<close>

definition get_contact :: "event_manager \<Rightarrow> string \<Rightarrow> datetime option" where
  "get_contact ev name = events ev name"

definition get_time :: "event_manager \<Rightarrow> string \<Rightarrow> error + datetime option" where
  "get_time ev name =
     (case events ev name of
        Some t \<Rightarrow> Inr (Some t)
      | None \<Rightarrow>
          (case split_on CHR '' '' name of
             [kind, percent] \<Rightarrow>
               if kind = ''MAGPRE'' then
                 (case py_float percent of
                    Inl e \<Rightarrow> Inl e
                  | Inr p \<Rightarrow>
                      (let pct = p / 100
                       in case get_magnitude_time ev pct False of
                            Inl e \<Rightarrow> Inl e
                          | Inr time \<Rightarrow>
                              if datetime_truth time then Inr (Some time)
                              else
                                (let pct = max_magnitude ev * pct
                                 in case (get_contact ev ''C1'', get_contact ev ''C2'') of
                                      (Some t1, Some t2) \<Rightarrow>
                                        Inr (Some (t1 + td_mul (t2 - t1) pct))
                                    | _ \<Rightarrow> Inl TypeError)))
               else if kind = ''MAGPOST'' then
                 (case py_float percent of
                    Inl e \<Rightarrow> Inl e
                  | Inr p \<Rightarrow>
                      (let pct = p / 100
                       in case get_magnitude_time ev pct True of
                            Inl e \<Rightarrow> Inl e
                          | Inr time \<Rightarrow>
                              if datetime_truth time then Inr (Some time)
                              else
                                (case (get_contact ev ''C3'', get_contact ev ''C4'') of
                                   (Some t1, Some t2) \<Rightarrow>
                                     Inr (Some (t2 - td_mul (t2 - t1) pct))
                                 | _ \<Rightarrow> Inl TypeError)))
               else Inr None
           | _ \<Rightarrow> Inr None))"

section \<open>Script commands\<close>

text \<open>
  A loop's \<open>add_command\<close> refuses a nestable command and never stores the end marker,
  so the commands of a loop are \<open>Play\<close> and \<open>TakePic\<close> commands only. The offset of
  a leaf is \<open>None\<close> when \<open>parse_time_delta\<close> found neither two nor three parts.
\<close>

datatype leaf =
    Play string "timedelta option" string string
  | TakePic string "timedelta option" rat rat int string

datatype command =
    ForVarLoop rat rat rat "leaf list"
  | ForIterLoop int rat int "leaf list"
  | ForLoopEnd
  | Leaf leaf

fun event_of :: "leaf \<Rightarrow> string" where
  "event_of (Play event offset file comment) = event"
| "event_of (TakePic event offset shutter_sec aperture iso' comment) = event"

text \<open>
  \<open>generate_actions\<close> of a leaf, with the \<open>override_event\<close> keyword when a loop gives
  one. A time or an offset that is \<open>None\<close> makes the addition raise \<open>TypeError\<close>.
\<close>

fun leaf_generate_actions :: "event_manager \<Rightarrow> string option \<Rightarrow> leaf \<Rightarrow> error + action list" where
  "leaf_generate_actions ev override_event (Play event offset file comment) =
     (case get_time ev (case override_event of None \<Rightarrow> event | Some e \<Rightarrow> e) of
        Inl e \<Rightarrow> Inl e
      | Inr None \<Rightarrow> Inl TypeError
      | Inr (Some t) \<Rightarrow>
          (case offset of
             None \<Rightarrow> Inl TypeError
           | Some d \<Rightarrow> Inr [ActionPlay (t + d) (PStr file) (PStr comment)]))"
| "leaf_generate_actions ev override_event (TakePic event offset shutter_sec aperture iso' comment) =
     (case get_time ev (case override_event of None \<Rightarrow> event | Some e \<Rightarrow> e) of
        Inl e \<Rightarrow> Inl e
      | Inr None \<Rightarrow> Inl TypeError
      | Inr (Some t) \<Rightarrow>
          (case offset of
             None \<Rightarrow> Inl TypeError
           | Some d \<Rightarrow>
               Inr [ActionTakePic (t + d) (PFloat shutter_sec) (PFloat aperture) (PInt iso')
                      (PStr comment)]))"

text \<open>\<open>action.comment += s\<close> and \<open>action.time += d\<close>.\<close>

fun add_comment :: "string \<Rightarrow> action \<Rightarrow> error + action" where
  "add_comment s (ActionTakePic time shutter aperture iso' (PStr c)) =
     Inr (ActionTakePic time shutter aperture iso' (PStr (c @ s)))"
| "add_comment s (ActionPlay time soundfile (PStr c)) = Inr (ActionPlay time soundfile (PStr (c @ s)))"
| "add_comment s a = Inl TypeError"

fun add_time :: "timedelta \<Rightarrow> action \<Rightarrow> action" where
  "add_time d (ActionTakePic time shutter aperture iso' comment) =
     ActionTakePic (time + d) shutter aperture iso' comment"
| "add_time d (ActionPlay time soundfile comment) = ActionPlay (time + d) soundfile comment"

fun map_result :: "('a \<Rightarrow> error + 'b) \<Rightarrow> 'a list \<Rightarrow> error + 'b list" where
  "map_result f [] = Inr []"
| "map_result f (x # xs) =
     (case f x of
        Inl e \<Rightarrow> Inl e
      | Inr y \<Rightarrow> (case map_result f xs of Inl e \<Rightarrow> Inl e | Inr ys \<Rightarrow> Inr (y # ys)))"

text \<open>\<open>int(x)\<close> of a float cuts the fraction off, towards zero.\<close>

definition py_trunc :: "rat \<Rightarrow> int" where
  "py_trunc x = (if x \<ge> 0 then \<lfloor>x\<rfloor> else \<lceil>x\<rceil>)"

text \<open>
  \<open>f'{value:04.1f}'\<close>: one decimal, the nearest one (a tie to the even digit), the sign
  first and zeros after it up to a width of four.
\<close>

definition format_04_1f :: "rat \<Rightarrow> string" where
  "format_04_1f x =
     (let n = nat (case quotient_of (\<bar>x\<bar> * 10) of (a, b) \<Rightarrow> divide_and_round a b);
          body = digits_of (n div 10) @ ''.'' @ digits_of (n mod 10)
      in if x < 0 then CHR ''-'' # zero_pad 3 body else zero_pad 4 body)"

subsection \<open>ForIterLoop\<close>

text \<open>The note \<open>f" (iter. {i+1:03d})"\<close> of iteration \<open>i\<close>.\<close>

definition iter_note :: "nat \<Rightarrow> string" where
  "iter_note i = '' (iter. '' @ zero_pad 3 (str_int (int i + 1)) @ '')''"

text \<open>The inner \<open>for c in self.commands\<close> of iteration \<open>i\<close>, at the offset \<open>value\<close>.\<close>

fun iter_pass :: "event_manager \<Rightarrow> nat \<Rightarrow> rat \<Rightarrow> leaf list \<Rightarrow> action list \<Rightarrow> error + action list" where
  "iter_pass ev i value [] actions = Inr actions"
| "iter_pass ev i value (c # cs) actions =
     (let microsec = py_trunc (value * 100) * 10000
      in case leaf_generate_actions ev None c of
           Inl e \<Rightarrow> Inl e
         | Inr more' \<Rightarrow>
             (case map_result (\<lambda>a. add_comment (iter_note i) (add_time microsec a)) more' of
                Inl e \<Rightarrow> Inl e
              | Inr more' \<Rightarrow> iter_pass ev i value cs (actions @ more')))"

text \<open>The outer \<open>for i in range(self.iters)\<close>, with \<open>n\<close> iterations left.\<close>

fun iter_loop ::
  "event_manager \<Rightarrow> int \<Rightarrow> rat \<Rightarrow> leaf list \<Rightarrow> nat \<Rightarrow> nat \<Rightarrow> rat \<Rightarrow> action list \<Rightarrow> error + action list" where
  "iter_loop ev kind delay commands 0 i value actions = Inr actions"
| "iter_loop ev kind delay commands (Suc n) i value actions =
     (case iter_pass ev i value commands actions of
        Inl e \<Rightarrow> Inl e
      | Inr actions \<Rightarrow>
          iter_loop ev kind delay commands n (Suc i)
            (if kind = 0 then value - delay else value + delay) actions)"

definition ForIterLoop_generate_actions ::
  "event_manager \<Rightarrow> int \<Rightarrow> rat \<Rightarrow> int \<Rightarrow> leaf list \<Rightarrow> error + action list" where
  "ForIterLoop_generate_actions ev kind delay iters commands =
     iter_loop ev kind delay commands (nat iters) 0 0 []"

subsection \<open>ForVarLoop\<close>

text \<open>
  The inner \<open>for c in self.commands\<close>: \<open>value += self.step\<close> is its last statement, so
  the pass returns the value it has reached together with the Actions.
\<close>

fun var_pass ::
  "event_manager \<Rightarrow> rat \<Rightarrow> leaf list \<Rightarrow> rat \<Rightarrow> action list \<Rightarrow> error + (action list \<times> rat)" where
  "var_pass ev step [] value actions = Inr (actions, value)"
| "var_pass ev step (c # cs) value actions =
     (let var = format_04_1f value
      in case split_max CHR '' '' 2 (event_of c) of
           [event, post] \<Rightarrow>
             (case leaf_generate_actions ev (Some (event @ '' '' @ var)) c of
                Inl e \<Rightarrow> Inl e
              | Inr more' \<Rightarrow>
                  (case (if event \<in> set [''MAGPRE'', ''MAGPOST'']
                         then map_result (add_comment ('' (Mag. '' @ var @ ''%)'')) more'
                         else Inr more') of
                     Inl e \<Rightarrow> Inl e
                   | Inr more' \<Rightarrow> var_pass ev step cs (value + step) (actions @ more')))
         | _ \<Rightarrow> Inl ValueError)"

text \<open>
  The outer \<open>while value < self.end\<close> may run forever: the result \<open>None\<close> stands for a
  call that does not return.
\<close>

partial_function (option) var_loop ::
  "event_manager \<Rightarrow> rat \<Rightarrow> rat \<Rightarrow> leaf list \<Rightarrow> rat \<Rightarrow> action list \<Rightarrow> (error + action list) option" where
  "var_loop ev step end' commands value actions =
     (if value < end' then
        (case var_pass ev step commands value actions of
           Inl e \<Rightarrow> Some (Inl e)
         | Inr (actions, value) \<Rightarrow> var_loop ev step end' commands value actions)
      else Some (Inr actions))"

declare var_loop.simps [code]

definition ForVarLoop_generate_actions ::
  "event_manager \<Rightarrow> rat \<Rightarrow> rat \<Rightarrow> rat \<Rightarrow> leaf list \<Rightarrow> (error + action list) option" where
  "ForVarLoop_generate_actions ev start step end' commands = var_loop ev step end' commands start []"

subsection \<open>Any command\<close>

fun generate_actions :: "event_manager \<Rightarrow> command \<Rightarrow> (error + action list) option" where
  "generate_actions ev (ForVarLoop start step end' commands) =
     ForVarLoop_generate_actions ev start step end' commands"
| "generate_actions ev (ForIterLoop kind delay iters commands) =
     Some (ForIterLoop_generate_actions ev kind delay iters commands)"
| "generate_actions ev ForLoopEnd = Some (Inl ValueError)"
| "generate_actions ev (Leaf c) = Some (leaf_generate_actions ev None c)"

section \<open>Script and ScriptParser\<close>

text \<open>
  \<open>timedelta(hours=hh, minutes=mm, seconds=ss)\<close> of float arguments: the total, rounded
  to the nearest microsecond.
\<close>

definition timedelta_hms :: "rat \<Rightarrow> rat \<Rightarrow> rat \<Rightarrow> timedelta" where
  "timedelta_hms hh mm ss =
     (case quotient_of (((hh * 60 + mm) * 60 + ss) * 1000000) of (a, b) \<Rightarrow> divide_and_round a b)"

text \<open>
  \<open>parse_time_delta\<close>: a part that is not a number raises \<open>RuntimeError\<close>; with neither
  two nor three parts no case matches and the function returns \<open>None\<close>.
\<close>

definition parse_time_delta :: "string \<Rightarrow> string \<Rightarrow> error + timedelta option" where
  "parse_time_delta sign_str time_str =
     (let make_delta = (\<lambda>hh mm ss.
            let delta = timedelta_hms hh mm ss in if sign_str = ''-'' then - delta else delta)
      in case map_result py_float (split_on CHR '':'' time_str) of
           Inl e \<Rightarrow> Inl RuntimeError
         | Inr [hh, mm, ss] \<Rightarrow> Inr (Some (make_delta hh mm ss))
         | Inr [mm, ss] \<Rightarrow> Inr (Some (make_delta 0 mm ss))
         | Inr _ \<Rightarrow> Inr None)"

definition parse_shutter :: "string \<Rightarrow> error + rat" where
  "parse_shutter shutter_str =
     (case map_result py_float (split_max CHR ''/'' 2 shutter_str) of
        Inl e \<Rightarrow> Inl e
      | Inr [num, den] \<Rightarrow> if den = 0 then Inl ZeroDivisionError else Inr (num / den)
      | Inr [sec] \<Rightarrow> Inr sec
      | Inr _ \<Rightarrow> Inl RuntimeError)"

text \<open>
  The first component of \<open>os.path.splitext\<close>: the path without the extension of its
  last component, where leading dots of that component start no extension.
\<close>

definition splitext_root :: "string \<Rightarrow> string" where
  "splitext_root p =
     (let base = rev (takeWhile (\<lambda>c. c \<noteq> CHR ''/'') (rev p));
          dir = take (length p - length base) p
      in if CHR ''.'' \<in> set base then
           (let ext = takeWhile (\<lambda>c. c \<noteq> CHR ''.'') (rev base);
                stem = take (length base - length ext - 1) base
            in if \<exists>c \<in> set stem. c \<noteq> CHR ''.'' then dir @ stem else p)
         else p)"

definition Play_init :: "string list \<Rightarrow> error + leaf" where
  "Play_init args =
     (case args of
        [event, sign, offset, file, a5, a6, a7, a8, a9, a10, a11, comment] \<Rightarrow>
          (case parse_time_delta sign offset of
             Inl e \<Rightarrow> Inl e
           | Inr offset \<Rightarrow> Inr (Play event offset (splitext_root file @ ''.mp3'') comment))
      | _ \<Rightarrow> Inl ValueError)"

definition TakePic_init :: "string list \<Rightarrow> error + leaf" where
  "TakePic_init args =
     (case args of
        [event, sign, offset, camera, shutter, aperture, iso', burst, quality, size', incremental,
         comment] \<Rightarrow>
          (case parse_time_delta sign offset of
             Inl e \<Rightarrow> Inl e
           | Inr offset \<Rightarrow>
               (case parse_shutter shutter of
                  Inl e \<Rightarrow> Inl e
                | Inr shutter_sec \<Rightarrow>
                    (case py_float aperture of
                       Inl e \<Rightarrow> Inl e
                     | Inr aperture \<Rightarrow>
                         (case py_int iso' of
                            Inl e \<Rightarrow> Inl e
                          | Inr iso' \<Rightarrow>
                              Inr (TakePic event offset shutter_sec aperture iso' comment)))))
      | _ \<Rightarrow> Inl ValueError)"

definition ForVarLoop_init :: "string list \<Rightarrow> error + command" where
  "ForVarLoop_init args =
     (case args of
        [start, step, end'] \<Rightarrow>
          (case py_float start of
             Inl e \<Rightarrow> Inl e
           | Inr start \<Rightarrow>
               (case py_float step of
                  Inl e \<Rightarrow> Inl e
                | Inr step \<Rightarrow>
                    (case py_float end' of
                       Inl e \<Rightarrow> Inl e
                     | Inr end' \<Rightarrow> Inr (ForVarLoop start step end' []))))
      | _ \<Rightarrow> Inl ValueError)"

definition ForIterLoop_init :: "string list \<Rightarrow> error + command" where
  "ForIterLoop_init args =
     (case args of
        [kind, delay, iters] \<Rightarrow>
          (case py_int kind of
             Inl e \<Rightarrow> Inl e
           | Inr kind \<Rightarrow>
               (case py_float delay of
                  Inl e \<Rightarrow> Inl e
                | Inr delay \<Rightarrow>
                    (case py_int iters of
                       Inl e \<Rightarrow> Inl e
                     | Inr iters \<Rightarrow> Inr (ForIterLoop kind delay iters []))))
      | _ \<Rightarrow> Inl ValueError)"

text \<open>\<open>_make_command\<close>: the first fields of the line choose the command.\<close>

definition make_command :: "string \<Rightarrow> error + command" where
  "make_command line =
     (case split_on CHR '','' line of
        [] \<Rightarrow> Inl RuntimeError
      | a # rest \<Rightarrow>
          if a = ''FOR'' \<and> (case rest of b # rest \<Rightarrow> b = ''(VAR)'' | [] \<Rightarrow> False)
            then ForVarLoop_init (tl rest)
          else if a = ''FOR'' \<and> (case rest of b # rest \<Rightarrow> b = ''(INTERVALOMETER)'' | [] \<Rightarrow> False)
            then ForIterLoop_init (tl rest)
          else if a = ''ENDFOR'' then Inr ForLoopEnd
          else if a = ''TAKEPIC'' then map_sum id Leaf (TakePic_init rest)
          else if a = ''PLAY'' then map_sum id Leaf (Play_init rest)
          else Inl RuntimeError)"

fun is_nestable :: "command \<Rightarrow> bool" where
  "is_nestable (ForVarLoop start step end' commands) = True"
| "is_nestable (ForIterLoop kind delay iters commands) = True"
| "is_nestable ForLoopEnd = False"
| "is_nestable (Leaf c) = False"

text \<open>
  The \<open>add_command\<close> method of the command \<open>self\<close>: the command as changed, and
  whether the loop is done. Only the two loops accept a command.
\<close>

fun command_add_command :: "command \<Rightarrow> command \<Rightarrow> error + (command \<times> bool)" where
  "command_add_command (ForVarLoop start step end' commands) command =
     (if is_nestable command then Inl ValueError
      else (case command of
              Leaf c \<Rightarrow> Inr (ForVarLoop start step end' (commands @ [c]), False)
            | _ \<Rightarrow> Inr (ForVarLoop start step end' commands, True)))"
| "command_add_command (ForIterLoop kind delay iters commands) command =
     (if is_nestable command then Inl ValueError
      else (case command of
              Leaf c \<Rightarrow> Inr (ForIterLoop kind delay iters (commands @ [c]), False)
            | _ \<Rightarrow> Inr (ForIterLoop kind delay iters commands, True)))"
| "command_add_command ForLoopEnd command = Inl ValueError"
| "command_add_command (Leaf c) command = Inl ValueError"

text \<open>
  The parser holds the script's command list and a stack. A loop on the stack is the
  same object as an entry of the command list, so the stack holds the position of
  that entry, and a command added to the loop changes the entry.
\<close>

record script_parser =
  script_commands :: "command list"
  stack :: "nat list"

definition ScriptParser_init :: script_parser where
  "ScriptParser_init = \<lparr> script_commands = [], stack = [] \<rparr>"

definition parser_add_command :: "script_parser \<Rightarrow> command \<Rightarrow> error + script_parser" where
  "parser_add_command self command =
     (if stack self \<noteq> [] then
        (let top = last (stack self)
         in case command_add_command (script_commands self ! top) command of
              Inl e \<Rightarrow> Inl e
            | Inr (top', done) \<Rightarrow>
                Inr (self\<lparr> script_commands := (script_commands self)[top := top'],
                           stack := (if done then butlast (stack self) else stack self) \<rparr>))
      else
        Inr (self\<lparr> stack := (if is_nestable command
                                then stack self @ [length (script_commands self)]
                                else stack self),
                    script_commands := script_commands self @ [command] \<rparr>))"

text \<open>\<open>_parse_script\<close>: comment lines and empty lines are passed over.\<close>

fun parse_lines :: "script_parser \<Rightarrow> string list \<Rightarrow> error + script_parser" where
  "parse_lines self [] = Inr self"
| "parse_lines self (line # lines) =
     (let line = strip line
      in if take 1 line = ''#'' then parse_lines self lines
         else if line = [] then parse_lines self lines
         else
           (case make_command line of
              Inl e \<Rightarrow> Inl e
            | Inr command \<Rightarrow>
                (case parser_add_command self command of
                   Inl e \<Rightarrow> Inl e
                 | Inr self \<Rightarrow> parse_lines self lines)))"

definition parse_script :: "string list \<Rightarrow> error + command list" where
  "parse_script file = map_sum id script_commands (parse_lines ScriptParser_init file)"

text \<open>
  \<open>Script.generate_sequence\<close>: the Actions of every command in turn, then the
  Sequence of them all.
\<close>

fun generate_all :: "event_manager \<Rightarrow> command list \<Rightarrow> action list \<Rightarrow> (error + action list) option" where
  "generate_all ev [] actions = Some (Inr actions)"
| "generate_all ev (command # commands) actions =
     (case generate_actions ev command of
        None \<Rightarrow> None
      | Some (Inl e) \<Rightarrow> Some (Inl e)
      | Some (Inr more') \<Rightarrow> generate_all ev commands (actions @ more'))"

definition generate_sequence :: "event_manager \<Rightarrow> command list \<Rightarrow> (error + action list) option" where
  "generate_sequence ev commands =
     map_option (map_sum id Sequence_init) (generate_all ev commands [])"

section \<open>Sequencer\<close>

text \<open>\<open>_collect_actions\<close>, after the file is read: Actions of a disabled kind are left out.\<close>

fun collect_actions :: "bool \<Rightarrow> bool \<Rightarrow> action list \<Rightarrow> action list" where
  "collect_actions no_camera no_sound [] = []"
| "collect_actions no_camera no_sound (ActionTakePic time shutter aperture iso' comment # rest) =
     (if \<not> no_camera
      then ActionTakePic time shutter aperture iso' comment # collect_actions no_camera no_sound rest
      else collect_actions no_camera no_sound rest)"
| "collect_actions no_camera no_sound (ActionPlay time soundfile comment # rest) =
     (if \<not> no_sound
      then ActionPlay time soundfile comment # collect_actions no_camera no_sound rest
      else collect_actions no_camera no_sound rest)"

text \<open>
  What the control loop does to the outside, in order: a call of \<open>time.sleep\<close> with a
  delay, and a task handed to the executor. The clock is read once per Action; reading
  number \<open>k\<close> of the real clock is \<open>real_clock k\<close>, and \<open>_current_time\<close> adds the offset.
\<close>

datatype effect = Sleep timedelta | SubmitPict action | SubmitPlay action

fun execute_action :: "action \<Rightarrow> effect" where
  "execute_action (ActionTakePic time shutter aperture iso' comment) =
     SubmitPict (ActionTakePic time shutter aperture iso' comment)"
| "execute_action (ActionPlay time soundfile comment) = SubmitPlay (ActionPlay time soundfile comment)"

definition current_time :: "(nat \<Rightarrow> datetime) \<Rightarrow> timedelta \<Rightarrow> nat \<Rightarrow> datetime" where
  "current_time real_clock time_offset k = real_clock k + time_offset"

fun execute :: "(nat \<Rightarrow> datetime) \<Rightarrow> timedelta \<Rightarrow> nat \<Rightarrow> action list \<Rightarrow> effect list \<Rightarrow> effect list" where
  "execute real_clock time_offset k [] trace = trace"
| "execute real_clock time_offset k (action # rest) trace =
     (let now = current_time real_clock time_offset k;
          delay = time_of action - now
      in if delay < 0 then execute real_clock time_offset (Suc k) rest trace
         else execute real_clock time_offset (Suc k) rest
                (trace @ (if delay > 0 then [Sleep delay] else []) @ [execute_action action]))"

section \<open>Definitions that follow the specification\<close>




text \<open>
  What comes back of an Action that was written to a sequence file and read again: the
  time cut to the tenth of a second, and every other attribute as the text that was
  written for it.
\<close>

fun read_back :: "(rat \<Rightarrow> string) \<Rightarrow> action \<Rightarrow> action" where
  "read_back frepr (ActionTakePic time shutter aperture iso' comment) =
     ActionTakePic (time - time mod 100000) (PStr (csv_text frepr shutter))
       (PStr (csv_text frepr aperture)) (PStr (csv_text frepr iso')) (PStr (csv_text frepr comment))"
| "read_back frepr (ActionPlay time soundfile comment) =
     ActionPlay (time - time mod 100000) (PStr (csv_text frepr soundfile))
       (PStr (csv_text frepr comment))"

text \<open>
  The text \<open>repr\<close> gives for a float whose value is a whole number (below \<open>10^16\<close>):
  the digits and \<open>.0\<close>. It stands for \<open>frepr\<close> in examples whose floats are whole.
\<close>

definition repr_whole :: "rat \<Rightarrow> string" where
  "repr_whole x = str_int \<lfloor>x\<rfloor> @ ''.0''"

text \<open>
  What \<open>month_day\<close> has to yield for day number \<open>n\<close> of a year: a month and a day of
  that month, with \<open>n\<close> days of the year before it.
\<close>

definition month_day_ok :: "bool \<Rightarrow> int \<Rightarrow> bool" where
  "month_day_ok leapyear n =
     (case month_day leapyear n of
        (m, d) \<Rightarrow> 1 \<le> m \<and> m \<le> 12 \<and> 1 \<le> d
          \<and> d \<le> (if m = 2 \<and> leapyear then 29 else DAYS_IN_MONTH ! nat (m - 1))
          \<and> DAYS_BEFORE_MONTH ! nat (m - 1) + (if m > 2 \<and> leapyear then 1 else 0) + d = n + 1)"

section \<open>Properties of text, calendar and timestamps\<close>

subsection \<open>Splitting and digits\<close>

lemma split_on_no_sep: "c \<notin> set s \<Longrightarrow> split_on c s = [s]"
  by (induction s) auto

lemma split_on_prefix: "c \<notin> set a \<Longrightarrow> split_on c (a @ c # s) = a # split_on c s"
  by (induction a) auto

lemma digit_char_props:
  assumes "k < 10"
  shows "is_digit (digit_char k)" and "digit_val (digit_char k) = k"
  using assms by (simp_all add: is_digit_def digit_val_def digit_char_def)

lemma is_digit_not_special:
  assumes "is_digit c"
  shows "\<not> is_space c" "c \<noteq> CHR ''-''" "c \<noteq> CHR ''+''" "c \<noteq> CHR ''_''" "c \<noteq> CHR ''/''"
    "c \<noteq> CHR '':''" "c \<noteq> CHR ''.''"
  using assms by (auto simp: is_digit_def is_space_def)

lemma digits_of_digits: "\<forall>c \<in> set (digits_of n). is_digit c"
proof (induction n rule: digits_of.induct)
  case (1 n)
  show ?case
  proof (cases "n < 10")
    case True
    then show ?thesis by (subst digits_of.simps) (simp add: digit_char_props)
  next
    case False
    with 1 show ?thesis by (subst digits_of.simps) (simp add: digit_char_props)
  qed
qed

lemma digits_of_nonempty: "digits_of n \<noteq> []"
  by (subst digits_of.simps) simp

lemma digits_val_append: "digits_val acc (xs @ ys) = digits_val (digits_val acc xs) ys"
  by (induction xs arbitrary: acc) simp_all

lemma digits_val_digits_of: "digits_val 0 (digits_of n) = n"
proof (induction n rule: digits_of.induct)
  case (1 n)
  show ?case
  proof (cases "n < 10")
    case True
    then show ?thesis by (subst digits_of.simps) (simp add: digit_char_props)
  next
    case False
    with 1 show ?thesis
      by (subst digits_of.simps) (simp add: digits_val_append digit_char_props)
  qed
qed

lemma digits_val_zeros: "digits_val 0 (replicate k CHR ''0'') = 0"
  by (induction k) (simp_all add: digit_val_def)

lemma zero_pad_digits: "\<forall>c \<in> set (zero_pad w (digits_of n)). is_digit c"
  using digits_of_digits [of n] by (auto simp: zero_pad_def is_digit_def)

lemma zero_pad_nonempty: "zero_pad w (digits_of n) \<noteq> []"
  by (simp add: zero_pad_def digits_of_nonempty)

lemma digits_val_zero_pad: "digits_val 0 (zero_pad w (digits_of n)) = n"
  by (simp add: zero_pad_def digits_val_append digits_val_zeros digits_val_digits_of)

lemma drop_underscores_digits: "\<forall>c \<in> set s. is_digit c \<Longrightarrow> drop_underscores s = Some s"
proof (induction s rule: drop_underscores.induct)
  case 1
  then show ?case by simp
next
  case (2 c)
  then show ?case by simp
next
  case (3 c d cs)
  then have "d \<noteq> CHR ''_''" using is_digit_not_special(4) [of d] by auto
  with 3 show ?case by simp
qed

lemma strip_no_space: "\<forall>c \<in> set s. \<not> is_space c \<Longrightarrow> strip s = s"
proof -
  assume a: "\<forall>c \<in> set s. \<not> is_space c"
  have d: "dropWhile is_space xs = xs" if "\<forall>c \<in> set xs. \<not> is_space c" for xs
    using that by (cases xs) simp_all
  from a have "dropWhile is_space s = s" by (rule d)
  moreover from a have "dropWhile is_space (rev s) = rev s" by (intro d) simp
  ultimately show ?thesis by (simp add: strip_def)
qed

lemma py_int_digits:
  assumes "s \<noteq> []" and "\<forall>c \<in> set s. is_digit c"
  shows "py_int s = Inr (int (digits_val 0 s))"
proof -
  from assms(2) have "strip s = s" by (intro strip_no_space) (auto dest: is_digit_not_special(1))
  moreover obtain c cs where s: "s = c # cs" using assms(1) by (cases s) auto
  moreover from s assms(2) have "c \<noteq> CHR ''-''" "c \<noteq> CHR ''+''"
    using is_digit_not_special(2,3) [of c] by auto
  moreover have "unsigned_digits s = Some (digits_val 0 s)"
    using assms by (simp add: unsigned_digits_def drop_underscores_digits)
  ultimately show ?thesis by (simp add: py_int_def)
qed

lemma py_int_zero_pad: "py_int (zero_pad w (digits_of n)) = Inr (int n)"
  using py_int_digits [OF zero_pad_nonempty zero_pad_digits, of w n]
  by (simp add: digits_val_zero_pad)

lemma zero_pad_peel:
  assumes "1 \<le> k"
  shows "zero_pad (Suc k) (digits_of n) = zero_pad k (digits_of (n div 10)) @ [digit_char (n mod 10)]"
proof (cases "n < 10")
  case True
  then have "digits_of n = [digit_char n]" "digits_of (n div 10) = [digit_char 0]"
    by (simp_all add: digits_of.simps)
  moreover have "digit_char 0 = CHR ''0''" by code_simp
  moreover obtain j where "k = Suc j" using assms by (cases k) auto
  ultimately show ?thesis
    using True by (simp add: zero_pad_def replicate_append_same)
next
  case False
  then have "digits_of n = digits_of (n div 10) @ [digit_char (n mod 10)]"
    by (subst digits_of.simps) simp
  then show ?thesis by (simp add: zero_pad_def)
qed

subsection \<open>The calendar\<close>

lemma month_day_in_year:
  assumes "0 \<le> n" and "n < 365"
  shows "month_day_ok leapyear n"
proof -
  define k where "k = (n + 50) div 32"
  have k: "32 * k \<le> n + 50" "n + 50 < 32 * k + 32" unfolding k_def by presburger+
  with assms have "1 \<le> k" "k \<le> 12" by linarith+
  then have "k = 1 \<or> k = 2 \<or> k = 3 \<or> k = 4 \<or> k = 5 \<or> k = 6 \<or> k = 7 \<or> k = 8
    \<or> k = 9 \<or> k = 10 \<or> k = 11 \<or> k = 12" by presburger
  then consider "k = 1" | "k = 2" | "k = 3" | "k = 4" | "k = 5" | "k = 6" | "k = 7" | "k = 8"
    | "k = 9" | "k = 10" | "k = 11" | "k = 12" by blast
  then show ?thesis
  proof cases
    case 1 with k assms show ?thesis
      unfolding month_day_ok_def month_day_def Let_def k_def [symmetric] DAYS_BEFORE_MONTH_def DAYS_IN_MONTH_def
      by (cases leapyear) simp_all
  next
    case 2 with k assms show ?thesis
      unfolding month_day_ok_def month_day_def Let_def k_def [symmetric] DAYS_BEFORE_MONTH_def DAYS_IN_MONTH_def
      by (cases leapyear) simp_all
  next
    case 3 with k assms show ?thesis
      unfolding month_day_ok_def month_day_def Let_def k_def [symmetric] DAYS_BEFORE_MONTH_def DAYS_IN_MONTH_def
      by (cases leapyear) simp_all
  next
    case 4 with k assms show ?thesis
      unfolding month_day_ok_def month_day_def Let_def k_def [symmetric] DAYS_BEFORE_MONTH_def DAYS_IN_MONTH_def
      by (cases leapyear) simp_all
  next
    case 5 with k assms show ?thesis
      unfolding month_day_ok_def month_day_def Let_def k_def [symmetric] DAYS_BEFORE_MONTH_def DAYS_IN_MONTH_def
      by (cases leapyear) simp_all
  next
    case 6 with k assms show ?thesis
      unfolding month_day_ok_def month_day_def Let_def k_def [symmetric] DAYS_BEFORE_MONTH_def DAYS_IN_MONTH_def
      by (cases leapyear) simp_all
  next
    case 7 with k assms show ?thesis
      unfolding month_day_ok_def month_day_def Let_def k_def [symmetric] DAYS_BEFORE_MONTH_def DAYS_IN_MONTH_def
      by (cases leapyear) simp_all
  next
    case 8 with k assms show ?thesis
      unfolding month_day_ok_def month_day_def Let_def k_def [symmetric] DAYS_BEFORE_MONTH_def DAYS_IN_MONTH_def
      by (cases leapyear) simp_all
  next
    case 9 with k assms show ?thesis
      unfolding month_day_ok_def month_day_def Let_def k_def [symmetric] DAYS_BEFORE_MONTH_def DAYS_IN_MONTH_def
      by (cases leapyear) simp_all
  next
    case 10 with k assms show ?thesis
      unfolding month_day_ok_def month_day_def Let_def k_def [symmetric] DAYS_BEFORE_MONTH_def DAYS_IN_MONTH_def
      by (cases leapyear) simp_all
  next
    case 11 with k assms show ?thesis
      unfolding month_day_ok_def month_day_def Let_def k_def [symmetric] DAYS_BEFORE_MONTH_def DAYS_IN_MONTH_def
      by (cases leapyear) simp_all
  next
    case 12 with k assms show ?thesis
      unfolding month_day_ok_def month_day_def Let_def k_def [symmetric] DAYS_BEFORE_MONTH_def DAYS_IN_MONTH_def
      by (cases leapyear) simp_all
  qed
qed


lemma days_before_year_cycles:
  fixes a b c e :: int
  assumes "0 \<le> b" "b \<le> 3" "0 \<le> c" "c \<le> 24" "0 \<le> e" "e \<le> 3"
  shows "days_before_year (400 * a + 100 * b + 4 * c + e + 1)
           = 146097 * a + 36524 * b + 1461 * c + 365 * e"
proof -
  let ?Y = "400 * a + 100 * b + 4 * c + e"
  have d4: "?Y div 4 = 100 * a + 25 * b + c"
    by (rule int_div_pos_eq [where r = e]) (use assms in simp_all)
  have d100: "?Y div 100 = 4 * a + b"
    by (rule int_div_pos_eq [where r = "4 * c + e"]) (use assms in simp_all)
  have d400: "?Y div 400 = a"
    by (rule int_div_pos_eq [where r = "100 * b + 4 * c + e"]) (use assms in simp_all)
  show ?thesis
    unfolding days_before_year_def Let_def
    using d4 d100 d400 by simp
qed

lemma mod_cycle:
  fixes q r k :: int
  assumes "0 \<le> r" "r < k"
  shows "(k * q + r + 1) mod k = 0 \<longleftrightarrow> r = k - 1"
proof (cases "r = k - 1")
  case True
  then have "k * q + r + 1 = k * (q + 1) + 0" by (simp add: algebra_simps)
  then have "(k * q + r + 1) mod k = 0" by (metis add.right_neutral mod_mult_self2_is_0 mult.commute)
  with True show ?thesis by simp
next
  case False
  with assms have "0 \<le> r + 1" "r + 1 < k" by simp_all
  then have "(k * q + (r + 1)) mod k = r + 1" by (intro int_mod_pos_eq [where q = q]) simp_all
  with assms False show ?thesis by (simp add: add.assoc)
qed

lemma is_leap_cycles:
  fixes a b c e :: int
  assumes "0 \<le> b" "b \<le> 3" "0 \<le> c" "c \<le> 24" "0 \<le> e" "e \<le> 3"
  shows "is_leap (400 * a + 100 * b + 4 * c + e + 1) \<longleftrightarrow> (e = 3 \<and> (c \<noteq> 24 \<or> b = 3))"
proof -
  let ?y = "400 * a + 100 * b + 4 * c + e + 1"
  have p4: "0 \<le> e" "e < 4" using assms by simp_all
  have e4: "?y = 4 * (100 * a + 25 * b + c) + e + 1" by simp
  have m4: "?y mod 4 = 0 \<longleftrightarrow> e = 4 - 1"
    by (subst e4) (rule mod_cycle [OF p4])
  have p100: "0 \<le> 4 * c + e" "4 * c + e < 100" using assms by simp_all
  have e100: "?y = 100 * (4 * a + b) + (4 * c + e) + 1" by simp
  have m100: "?y mod 100 = 0 \<longleftrightarrow> 4 * c + e = 100 - 1"
    by (subst e100) (rule mod_cycle [OF p100])
  have p400: "0 \<le> 100 * b + 4 * c + e" "100 * b + 4 * c + e < 400" using assms by simp_all
  have e400: "?y = 400 * a + (100 * b + 4 * c + e) + 1" by simp
  have m400: "?y mod 400 = 0 \<longleftrightarrow> 100 * b + 4 * c + e = 400 - 1"
    by (subst e400) (rule mod_cycle [OF p400])
  show ?thesis
    unfolding is_leap_def m4 m100 m400 using assms by auto
qed


lemma ord2ymd_correct:
  assumes "1 \<le> n" and "n \<le> 3652059"
  shows "\<exists>y m d. ord2ymd n = (y, m, d) \<and> 1 \<le> y \<and> y \<le> 9999 \<and> 1 \<le> m \<and> m \<le> 12
           \<and> 1 \<le> d \<and> d \<le> days_in_month y m \<and> ymd2ord y m d = n"
proof -
  define n0 where "n0 = n - 1"
  define a where "a = n0 div 146097"
  define r400 where "r400 = n0 mod 146097"
  define b where "b = r400 div 36524"
  define r100 where "r100 = r400 mod 36524"
  define c where "c = r100 div 1461"
  define r4 where "r4 = r100 mod 1461"
  define e where "e = r4 div 365"
  define r1 where "r1 = r4 mod 365"
  define Y where "Y = 400 * a + 100 * b + 4 * c + e"
  have n0: "0 \<le> n0" "n0 \<le> 3652058" using assms by (simp_all add: n0_def)
  have s400: "n0 = 146097 * a + r400" "0 \<le> r400" "r400 < 146097"
    by (simp_all add: a_def r400_def)
  have s100: "r400 = 36524 * b + r100" "0 \<le> r100" "r100 < 36524"
    by (simp_all add: b_def r100_def)
  have s4: "r100 = 1461 * c + r4" "0 \<le> r4" "r4 < 1461"
    by (simp_all add: c_def r4_def)
  have s1: "r4 = 365 * e + r1" "0 \<le> r1" "r1 < 365"
    by (simp_all add: e_def r1_def)
  have a: "0 \<le> a" "a \<le> 24" using n0 s400 by linarith+
  have b: "0 \<le> b" "b \<le> 4" using s400 s100 by linarith+
  have c: "0 \<le> c" "c \<le> 24" using s100 s4 by linarith+
  have e: "0 \<le> e" "e \<le> 4" using s4 s1 by linarith+
  have o: "ord2ymd n =
             (if e = 4 \<or> b = 4 then (Y, 12, 31)
              else (case month_day (e = 3 \<and> (c \<noteq> 24 \<or> b = 3)) r1 of (m, d) \<Rightarrow> (Y + 1, m, d)))"
    unfolding ord2ymd_def Let_def n0_def [symmetric] a_def [symmetric] r400_def [symmetric]
      b_def [symmetric] r100_def [symmetric] c_def [symmetric] r4_def [symmetric]
      e_def [symmetric] r1_def [symmetric] Y_def
    by (simp add: algebra_simps)
  have dec: "days_in_month y 12 = 31" "days_before_month y 12 = 334 + (if is_leap y then 1 else 0)" for y
    by (simp_all add: days_in_month_def days_before_month_def DAYS_IN_MONTH_def DAYS_BEFORE_MONTH_def)
  consider (century) "b = 4" | (year4) "b \<le> 3" "e = 4" | (plain) "b \<le> 3" "e \<le> 3"
    using b e by linarith
  then show ?thesis
  proof cases
    case century
    with s400 s100 have r: "r400 = 146096" "r100 = 0" by linarith+
    with s4 s1 c e have z: "c = 0" "r4 = 0" "e = 0" "r1 = 0" by linarith+
    have Y: "Y = 400 * a + 100 * 3 + 4 * 24 + 3 + 1" using century z by (simp add: Y_def)
    have dby: "days_before_year Y = 146097 * a + 36524 * 3 + 1461 * 24 + 365 * 3"
      unfolding Y by (rule days_before_year_cycles) simp_all
    have leap: "is_leap Y"
      unfolding Y by (subst is_leap_cycles) simp_all
    have "a \<le> 23" using n0 s400 r by linarith
    with a have range: "1 \<le> Y" "Y \<le> 9999" unfolding Y by linarith+
    have "ymd2ord Y 12 31 = n"
      using dby leap s400 r by (simp add: ymd2ord_def dec n0_def)
    with o century range show ?thesis by (simp add: dec)
  next
    case year4
    with s1 s4 have r: "r4 = 1460" "r1 = 0" by linarith+
    with s4 s100 have "c \<le> 23" by linarith
    have Y: "Y = 400 * a + 100 * b + 4 * c + 3 + 1" using year4 by (simp add: Y_def)
    have dby: "days_before_year Y = 146097 * a + 36524 * b + 1461 * c + 365 * 3"
      unfolding Y by (rule days_before_year_cycles) (use b c year4 in simp_all)
    have leap: "is_leap Y"
      unfolding Y by (subst is_leap_cycles) (use b c year4 \<open>c \<le> 23\<close> in simp_all)
    have range: "1 \<le> Y" "Y \<le> 9999" unfolding Y using a b c year4 \<open>c \<le> 23\<close> by linarith+
    have "ymd2ord Y 12 31 = n"
      using dby leap s400 s100 s4 r by (simp add: ymd2ord_def dec n0_def)
    with o year4 range show ?thesis by (simp add: dec)
  next
    case plain
    let ?L = "e = 3 \<and> (c \<noteq> 24 \<or> b = 3)"
    obtain m d where md: "month_day ?L r1 = (m, d)" by (cases "month_day ?L r1")
    have dby: "days_before_year (Y + 1) = 146097 * a + 36524 * b + 1461 * c + 365 * e"
      unfolding Y_def by (rule days_before_year_cycles) (use b c e plain in simp_all)
    have leap: "is_leap (Y + 1) \<longleftrightarrow> ?L"
      unfolding Y_def by (rule is_leap_cycles) (use b c e plain in simp_all)
    from month_day_in_year [OF s1(2,3), of ?L] md
    have ok: "1 \<le> m" "m \<le> 12" "1 \<le> d"
      "d \<le> (if m = 2 \<and> ?L then 29 else DAYS_IN_MONTH ! nat (m - 1))"
      "DAYS_BEFORE_MONTH ! nat (m - 1) + (if m > 2 \<and> ?L then 1 else 0) + d = r1 + 1"
      by (simp_all add: month_day_ok_def)
    have dim: "d \<le> days_in_month (Y + 1) m" using ok(4) leap by (simp add: days_in_month_def)
    have dbm: "days_before_month (Y + 1) m + d = r1 + 1" using ok(5) leap by (simp add: days_before_month_def)
    have eq: "ymd2ord (Y + 1) m d = n"
      using dby dbm s400 s100 s4 s1 by (simp add: ymd2ord_def n0_def)
    have "Y \<le> 9998"
    proof (rule ccontr)
      assume "\<not> Y \<le> 9998"
      then have big: "9999 \<le> 400 * a + 100 * b + 4 * c + e" by (simp add: Y_def)
      with a b c e plain have "a = 24" by linarith
      with big plain c have "b = 3" by linarith
      with big plain c \<open>a = 24\<close> have "c = 24" by linarith
      with big plain \<open>a = 24\<close> \<open>b = 3\<close> have "e = 3" by linarith
      with \<open>a = 24\<close> \<open>b = 3\<close> \<open>c = 24\<close> s400 s100 s4 s1 n0 show False by linarith
    qed
    moreover have "0 \<le> Y" using a b c e by (simp add: Y_def)
    ultimately have range: "1 \<le> Y + 1" "Y + 1 \<le> 9999" by linarith+
    from o plain md range ok(1,2,3) dim eq show ?thesis by simp
  qed
qed

subsection \<open>Formatting and parsing a timestamp\<close>

lemma take_all_but_suffix: "take (length (xs @ ys) - length ys) (xs @ ys) = xs"
  by simp

lemma format_time_eq:
  assumes "0 \<le> us" and "us = t mod DAY_US"
  shows "format_time t =
           zero_pad 2 (digits_of (nat (us div 1000000 div 3600))) @ '':''
           @ zero_pad 2 (digits_of (nat (us div 1000000 div 60 mod 60))) @ '':''
           @ zero_pad 2 (digits_of (nat (us div 1000000 mod 60))) @ ''.''
           @ zero_pad 1 (digits_of (nat (us mod 1000000 div 100000)))"
proof -
  define u where "u = nat (us mod 1000000)"
  define X where "X = zero_pad 2 (digits_of (nat (us div 1000000 div 3600))) @ '':''
           @ zero_pad 2 (digits_of (nat (us div 1000000 div 60 mod 60))) @ '':''
           @ zero_pad 2 (digits_of (nat (us div 1000000 mod 60))) @ ''.''"
  have p: "zero_pad 6 (digits_of u) =
        zero_pad 1 (digits_of (u div 10 div 10 div 10 div 10 div 10))
        @ [digit_char (u div 10 div 10 div 10 div 10 mod 10), digit_char (u div 10 div 10 div 10 mod 10),
           digit_char (u div 10 div 10 mod 10), digit_char (u div 10 mod 10), digit_char (u mod 10)]"
    using zero_pad_peel [of 5 u] zero_pad_peel [of 4 "u div 10"] zero_pad_peel [of 3 "u div 10 div 10"]
      zero_pad_peel [of 2 "u div 10 div 10 div 10"] zero_pad_peel [of 1 "u div 10 div 10 div 10 div 10"]
    by (simp only: numeral_eq_Suc pred_numeral_simps One_nat_def append_assoc append.simps arith_simps Suc_le_mono le0)
  have q: "u div 10 div 10 div 10 div 10 div 10 = nat (us mod 1000000 div 100000)"
    unfolding u_def by (simp add: div_mult2_eq [symmetric] nat_div_distrib)
  have "strftime_HMSf t = (X @ zero_pad 1 (digits_of (nat (us mod 1000000 div 100000))))
        @ [digit_char (u div 10 div 10 div 10 div 10 mod 10), digit_char (u div 10 div 10 div 10 mod 10),
           digit_char (u div 10 div 10 mod 10), digit_char (u div 10 mod 10), digit_char (u mod 10)]"
    unfolding strftime_HMSf_def Let_def assms(2) [symmetric] u_def [symmetric] p q X_def by simp
  then have "format_time t = X @ zero_pad 1 (digits_of (nat (us mod 1000000 div 100000)))"
    unfolding format_time_def Let_def by simp
  then show ?thesis by (simp add: X_def)
qed

lemma split_three:
  assumes "c \<notin> set a" and "c \<notin> set b" and "c \<notin> set d"
  shows "split_on c (a @ [c] @ b @ [c] @ d) = [a, b, d]"
  using split_on_prefix [OF assms(1), of "b @ [c] @ d"] split_on_prefix [OF assms(2), of d]
    split_on_no_sep [OF assms(3)]
  by simp

lemma split_two:
  assumes "c \<notin> set a" and "c \<notin> set b"
  shows "split_on c (a @ [c] @ b) = [a, b]"
  using split_on_prefix [OF assms(1), of b] split_on_no_sep [OF assms(2)] by simp

lemma zero_pad_no: 
  assumes "\<not> is_digit c"
  shows "c \<notin> set (zero_pad w (digits_of n))"
  using zero_pad_digits [of w n] assms by auto

lemma not_digits: "\<not> is_digit CHR ''/''" "\<not> is_digit CHR '':''" "\<not> is_digit CHR ''.''"
  by (simp_all add: is_digit_def)


lemma time_of_day_split:
  fixes us :: int
  assumes "0 \<le> us" and "us < 86400000000"
  defines "s \<equiv> us div 1000000"
  shows "0 \<le> s div 3600" "s div 3600 \<le> 23" "0 \<le> s div 60 mod 60" "s div 60 mod 60 \<le> 59"
    "0 \<le> s mod 60" "s mod 60 \<le> 59" "0 \<le> us mod 1000000 div 100000" "us mod 1000000 div 100000 \<le> 9"
    "((s div 3600 * 60 + s div 60 mod 60) * 60 + s mod 60) * 1000000 + us mod 1000000 div 100000 * 100000
       = us - us mod 100000"
proof -
  define w where "w = us mod 1000000"
  define f where "f = w div 100000"
  define g where "g = w mod 100000"
  define q where "q = s div 60"
  define S where "S = s mod 60"
  define H where "H = q div 60"
  define M where "M = q mod 60"
  have e: "us = 1000000 * s + w" "0 \<le> w" "w < 1000000" by (simp_all add: s_def w_def)
  have fg: "w = 100000 * f + g" "0 \<le> g" "g < 100000" by (simp_all add: f_def g_def)
  have qS: "s = 60 * q + S" "0 \<le> S" "S < 60" by (simp_all add: q_def S_def)
  have HM: "q = 60 * H + M" "0 \<le> M" "M < 60" by (simp_all add: H_def M_def)
  have H: "s div 3600 = H" by (simp add: H_def q_def zdiv_zmult2_eq [symmetric])
  have g': "us mod 100000 = g"
    by (rule int_mod_pos_eq [where q = "10 * s + f"]) (use e fg in simp_all)
  have s: "0 \<le> s" "s < 86400" using assms(1,2) e by linarith+
  have b1: "0 \<le> H" "H \<le> 23" using s qS HM by linarith+
  have b2: "0 \<le> f" "f \<le> 9" using e fg by linarith+
  have t: "((H * 60 + M) * 60 + S) * 1000000 + f * 100000 = us - g"
    unfolding e(1) fg(1) qS(1) HM(1) by (simp add: algebra_simps)
  show "0 \<le> s div 3600" "s div 3600 \<le> 23" using b1 by (simp_all only: H)
  show "0 \<le> s div 60 mod 60" "s div 60 mod 60 \<le> 59" using HM by (simp_all add: M_def q_def)
  show "0 \<le> s mod 60" "s mod 60 \<le> 59" using qS by (simp_all add: S_def)
  show "0 \<le> us mod 1000000 div 100000" "us mod 1000000 div 100000 \<le> 9"
    using b2 by (simp_all only: f_def w_def)
  show "((s div 3600 * 60 + s div 60 mod 60) * 60 + s mod 60) * 1000000 + us mod 1000000 div 100000 * 100000
       = us - us mod 100000"
    using t by (simp only: H g' M_def q_def S_def f_def w_def)
qed


lemma parse_format_round_trip:
  assumes "dt_valid t"
  shows "parse_date_time (format_date t) (format_time t) = Inr (t - t mod 100000)"
proof -
  define n where "n = t div DAY_US"
  define us where "us = t mod DAY_US"
  define s where "s = us div 1000000"
  have n: "1 \<le> n" "n \<le> 3652059" using assms by (simp_all add: dt_valid_def n_def)
  have us: "0 \<le> us" "us < 86400000000" by (simp_all add: us_def DAY_US_def)
  have t: "t = n * DAY_US + us" by (simp add: n_def us_def)
  from ord2ymd_correct [OF n] obtain y m d where ymd: "ord2ymd n = (y, m, d)"
    and v: "1 \<le> y" "y \<le> 9999" "1 \<le> m" "m \<le> 12" "1 \<le> d" "d \<le> days_in_month y m"
    and o: "ymd2ord y m d = n" by blast
  note tod = time_of_day_split [OF us, folded s_def]
  define A where "A = zero_pad 4 (digits_of (nat y))"
  define B where "B = zero_pad 2 (digits_of (nat m))"
  define C where "C = zero_pad 2 (digits_of (nat d))"
  define H where "H = zero_pad 2 (digits_of (nat (s div 3600)))"
  define M where "M = zero_pad 2 (digits_of (nat (s div 60 mod 60)))"
  define S where "S = zero_pad 2 (digits_of (nat (s mod 60)))"
  define F where "F = zero_pad 1 (digits_of (nat (us mod 1000000 div 100000)))"
  have fd: "format_date t = A @ [CHR ''/''] @ B @ [CHR ''/''] @ C"
    unfolding format_date_def strftime_Ymd_def n_def [symmetric] ymd A_def B_def C_def by simp
  have ft: "format_time t = H @ [CHR '':''] @ M @ [CHR '':''] @ (S @ [CHR ''.''] @ F)"
    unfolding format_time_eq [OF us(1) us_def] H_def M_def S_def F_def s_def by simp
  have F1: "split_on CHR ''/'' (format_date t) = [A, B, C]"
    unfolding fd A_def B_def C_def by (intro split_three zero_pad_no not_digits)
  have colon: "CHR '':'' \<notin> set (S @ [CHR ''.''] @ F)"
    using zero_pad_no [OF not_digits(2)] by (simp add: S_def F_def)
  have F3: "split_on CHR '':'' (format_time t) = [H, M, S @ [CHR ''.''] @ F]"
    unfolding ft by (intro split_three colon) (simp_all add: H_def M_def zero_pad_no not_digits)
  have F4: "split_on CHR ''.'' (S @ [CHR ''.''] @ F) = [S, F]"
    unfolding S_def F_def by (intro split_two zero_pad_no not_digits)
  have P: "py_int A = Inr y" "py_int B = Inr m" "py_int C = Inr d"
    using v by (simp_all add: A_def B_def C_def py_int_zero_pad)
  have Q: "py_int H = Inr (s div 3600)" "py_int M = Inr (s div 60 mod 60)" "py_int S = Inr (s mod 60)"
    "py_int F = Inr (us mod 1000000 div 100000)"
    using tod(1,3,5,7) by (simp_all add: H_def M_def S_def F_def py_int_zero_pad)
  have "(100000::int) dvd 86400000000" by simp
  then have m100: "t mod 100000 = us mod 100000"
    unfolding us_def DAY_US_def by (simp only: mod_mod_cancel)
  define hh where "hh = s div 3600"
  define mm where "mm = s div 60 mod 60"
  define ss where "ss = s mod 60"
  define f where "f = us mod 1000000 div 100000"
  define g where "g = us mod 100000"
  note tod' = tod [folded hh_def mm_def ss_def f_def g_def]
  have fb: "0 \<le> f * 100000" "f * 100000 \<le> 999999" using tod'(7,8) by linarith+
  have val: "ymd2ord y m d * DAY_US + ((hh * 60 + mm) * 60 + ss) * 1000000 + f * 100000
               = t - t mod 100000"
    unfolding o m100 g_def [symmetric] using tod'(9) t by linarith
  have F6: "datetime_new y m d hh mm ss (f * 100000) = Inr (t - t mod 100000)"
    unfolding datetime_new_def using v tod'(1-6) fb val by simp
  have F4': "split_on CHR ''.'' (S @ CHR ''.'' # F) = [S, F]" using F4 by simp
  show ?thesis
    unfolding parse_date_time_def F1 F3
    by (simp add: F4' P Q F6 [unfolded hh_def mm_def ss_def f_def])
qed

section \<open>Properties of the Sequence\<close>

lemma read_rows_concat:
  "read_rows rows acts = Inr result \<Longrightarrow>
   result = acts @ concat (map (\<lambda>row. if row = [] then []
                 else (case make_action row of Inr (Some a) \<Rightarrow> [a] | _ \<Rightarrow> [])) rows)"
proof (induction rows arbitrary: acts)
  case Nil
  then show ?case by simp
next
  case (Cons row rows)
  show ?case
  proof (cases "row = []")
    case True
    with Cons show ?thesis by simp
  next
    case False
    show ?thesis
    proof (cases "make_action row")
      case (Inl e)
      with Cons.prems False show ?thesis by simp
    next
      case (Inr r)
      show ?thesis
      proof (cases r)
        case None
        with Cons Inr False show ?thesis by simp
      next
        case (Some a)
        with Cons.prems Inr False have "read_rows rows (acts @ [a]) = Inr result" by simp
        from Cons.IH [OF this] Inr Some False show ?thesis by simp
      qed
    qed
  qed
qed

text \<open>
  C3, as the code has it. The constructor of a Sequence sorts by time and is stable:
  the times are non-decreasing, the Actions of any one time keep their order, and no
  Action is lost or added. \<open>read_csv\<close> does not sort: the Actions it leaves are those
  of the rows, in the order of the rows.
\<close>

theorem Sequence_init_stable_sorted_read_csv_row_order:
  "sorted (map time_of (Sequence_init actions))
   \<and> (\<forall>t. filter (\<lambda>a. time_of a = t) (Sequence_init actions) = filter (\<lambda>a. time_of a = t) actions)
   \<and> mset (Sequence_init actions) = mset actions
   \<and> (read_csv rows = Inr acts \<longrightarrow>
        acts = concat (map (\<lambda>row. if row = [] then []
                 else (case make_action row of Inr (Some a) \<Rightarrow> [a] | _ \<Rightarrow> [])) rows))"
  using read_rows_concat [of rows "[]" acts]
  by (simp add: Sequence_init_def read_csv_def sort_key_stable)

theorem Sequence_init_stable_sorted_read_csv_row_order_witness:
  "Sequence_init [ActionPlay 5 (PStr ''a'') PNone, ActionPlay 3 (PStr ''b'') PNone,
                  ActionPlay 5 (PStr ''c'') PNone]
     = [ActionPlay 3 (PStr ''b'') PNone, ActionPlay 5 (PStr ''a'') PNone, ActionPlay 5 (PStr ''c'') PNone]
   \<and> read_csv [[''2024/04/08'', ''18:30:06.0'', ''PLAY'', [], [], [], ''a.mp3'', ''x''],
               [''2024/04/08'', ''18:30:05.0'', ''PLAY'', [], [], [], ''b.mp3'', ''y'']]
       = Inr [ActionPlay 63848284206000000 (PStr ''a.mp3'') (PStr ''x''),
              ActionPlay 63848284205000000 (PStr ''b.mp3'') (PStr ''y'')]
   \<and> [ActionPlay 63848284206000000 (PStr ''a.mp3'') (PStr ''x''),
       ActionPlay 63848284205000000 (PStr ''b.mp3'') (PStr ''y'')]
       = concat (map (\<lambda>row. if row = [] then []
                 else (case make_action row of Inr (Some a) \<Rightarrow> [a] | _ \<Rightarrow> []))
           [[''2024/04/08'', ''18:30:06.0'', ''PLAY'', [], [], [], ''a.mp3'', ''x''],
            [''2024/04/08'', ''18:30:05.0'', ''PLAY'', [], [], [], ''b.mp3'', ''y'']])"
proof -
  have s: "Sequence_init [ActionPlay 5 (PStr ''a'') PNone, ActionPlay 3 (PStr ''b'') PNone,
                  ActionPlay 5 (PStr ''c'') PNone]
     = [ActionPlay 3 (PStr ''b'') PNone, ActionPlay 5 (PStr ''a'') PNone, ActionPlay 5 (PStr ''c'') PNone]"
    by (simp add: Sequence_init_def)
  have r: "read_csv [[''2024/04/08'', ''18:30:06.0'', ''PLAY'', [], [], [], ''a.mp3'', ''x''],
               [''2024/04/08'', ''18:30:05.0'', ''PLAY'', [], [], [], ''b.mp3'', ''y'']]
       = Inr [ActionPlay 63848284206000000 (PStr ''a.mp3'') (PStr ''x''),
              ActionPlay 63848284205000000 (PStr ''b.mp3'') (PStr ''y'')]"
    by code_simp
  show ?thesis
    using s r Sequence_init_stable_sorted_read_csv_row_order
      [of "[ActionPlay 5 (PStr ''a'') PNone, ActionPlay 3 (PStr ''b'') PNone, ActionPlay 5 (PStr ''c'') PNone]"
          "[[''2024/04/08'', ''18:30:06.0'', ''PLAY'', [], [], [], ''a.mp3'', ''x''],
            [''2024/04/08'', ''18:30:05.0'', ''PLAY'', [], [], [], ''b.mp3'', ''y'']]"
          "[ActionPlay 63848284206000000 (PStr ''a.mp3'') (PStr ''x''),
            ActionPlay 63848284205000000 (PStr ''b.mp3'') (PStr ''y'')]"]
    by blast
qed

text \<open>
  C3 as stated fails: a file whose rows are not in time order is read into a Sequence
  that is not time-sorted.
\<close>

theorem read_csv_unsorted_counterexample:
  "(case read_csv [[''2024/04/08'', ''18:30:06.0'', ''PLAY'', [], [], [], ''a.mp3'', ''x''],
                   [''2024/04/08'', ''18:30:05.0'', ''PLAY'', [], [], [], ''b.mp3'', ''y'']] of
      Inr acts \<Rightarrow> \<not> sorted (map time_of acts)
    | Inl e \<Rightarrow> False)"
  by code_simp

lemma format_date_not_header: "format_date t \<noteq> ''date''"
proof -
  obtain y m d where "ord2ymd (t div DAY_US) = (y, m, d)"
    by (cases "ord2ymd (t div DAY_US)")
  then have "CHR ''/'' \<in> set (format_date t)"
    by (simp add: format_date_def strftime_Ymd_def)
  then show ?thesis by auto
qed

lemma make_action_header: "make_action FIELD_NAMES = Inr None"
  by (simp add: make_action_def FIELD_NAMES_def field_def)

lemma make_action_as_row:
  assumes "dt_valid (time_of a)"
  shows "make_action (as_row frepr a) = Inr (Some (read_back frepr a))"
proof (cases a)
  case (ActionTakePic time shutter aperture iso' comment)
  with assms have "parse_date_time (format_date time) (format_time time) = Inr (time - time mod 100000)"
    by (simp add: parse_format_round_trip)
  with ActionTakePic show ?thesis
    by (simp add: make_action_def field_def format_date_not_header)
next
  case (ActionPlay time soundfile comment)
  with assms have "parse_date_time (format_date time) (format_time time) = Inr (time - time mod 100000)"
    by (simp add: parse_format_round_trip)
  with ActionPlay show ?thesis
    by (simp add: make_action_def field_def format_date_not_header)
qed

lemma as_row_nonempty: "as_row frepr a \<noteq> []"
  by (cases a) simp_all

lemma read_rows_as_rows:
  assumes "\<forall>a \<in> set actions. dt_valid (time_of a)"
  shows "read_rows (map (as_row frepr) actions) acc = Inr (acc @ map (read_back frepr) actions)"
  using assms
proof (induction actions arbitrary: acc)
  case Nil
  then show ?case by simp
next
  case (Cons a actions)
  then show ?case by (simp add: as_row_nonempty make_action_as_row)
qed

text \<open>
  C5, as the code has it. Writing a Sequence and reading the rows back yields, Action by
  Action, the same kind of Action with the time cut (not rounded) to the tenth of a
  second and with every other attribute as the text the writer made of it. An attribute
  that was text, as the comment and the sound file are, is equal to the original; a
  number (the float shutter and aperture and the integer iso of a generated capture)
  comes back as its text, not as a number.
\<close>

theorem write_csv_read_csv_round_trip:
  assumes "\<forall>a \<in> set actions. dt_valid (time_of a)"
  shows "read_csv (write_csv frepr actions) = Inr (map (read_back frepr) actions)
         \<and> (\<forall>a. time_of (read_back frepr a) = time_of a - time_of a mod 100000)
         \<and> (\<forall>s. csv_text frepr (PStr s) = s)"
proof -
  have "FIELD_NAMES \<noteq> []" by (simp add: FIELD_NAMES_def)
  then have "read_csv (write_csv frepr actions) = Inr (map (read_back frepr) actions)"
    using read_rows_as_rows [OF assms, of frepr "[]"]
    by (simp add: read_csv_def write_csv_def make_action_header)
  moreover have "time_of (read_back frepr a) = time_of a - time_of a mod 100000" for a
    by (cases a) simp_all
  ultimately show ?thesis by simp
qed

theorem write_csv_read_csv_round_trip_witness:
  "dt_valid 63848284205712345
   \<and> read_csv (write_csv repr_whole
        [ActionPlay 63848284205712345 (PStr ''a.mp3'') (PStr ''c''),
         ActionTakePic 63848284205712345 (PFloat 2) (PFloat 8) (PInt 100) (PStr ''d'')])
       = Inr [ActionPlay 63848284205700000 (PStr ''a.mp3'') (PStr ''c''),
              ActionTakePic 63848284205700000 (PStr ''2.0'') (PStr ''8.0'') (PStr ''100'') (PStr ''d'')]"
proof -
  let ?acts = "[ActionPlay 63848284205712345 (PStr ''a.mp3'') (PStr ''c''),
         ActionTakePic 63848284205712345 (PFloat 2) (PFloat 8) (PInt 100) (PStr ''d'')]"
  have v: "dt_valid 63848284205712345" by (simp add: dt_valid_def DAY_US_def)
  then have h: "\<forall>a \<in> set ?acts. dt_valid (time_of a)" by simp
  have e: "map (read_back repr_whole) ?acts
       = [ActionPlay 63848284205700000 (PStr ''a.mp3'') (PStr ''c''),
          ActionTakePic 63848284205700000 (PStr ''2.0'') (PStr ''8.0'') (PStr ''100'') (PStr ''d'')]"
    by code_simp
  from write_csv_read_csv_round_trip [OF h, of repr_whole]
  have "read_csv (write_csv repr_whole ?acts) = Inr (map (read_back repr_whole) ?acts)" by blast
  with v e show ?thesis by simp
qed

text \<open>
  C5 as stated fails: the iso of a capture is the integer 100 before, and the text
  \<open>100\<close> after the round trip.
\<close>

theorem round_trip_number_becomes_text_counterexample:
  "read_csv (write_csv repr_whole
      [ActionTakePic 63848284205700000 (PFloat 2) (PFloat 8) (PInt 100) (PStr ''totality'')])
     = Inr [ActionTakePic 63848284205700000 (PStr ''2.0'') (PStr ''8.0'') (PStr ''100'')
              (PStr ''totality'')]
   \<and> PStr ''100'' \<noteq> PInt 100"
proof -
  let ?a = "ActionTakePic 63848284205700000 (PFloat 2) (PFloat 8) (PInt 100) (PStr ''totality'')"
  have v: "\<forall>a \<in> set [?a]. dt_valid (time_of a)" by (simp add: dt_valid_def DAY_US_def)
  have e: "map (read_back repr_whole) [?a]
             = [ActionTakePic 63848284205700000 (PStr ''2.0'') (PStr ''8.0'') (PStr ''100'')
                  (PStr ''totality'')]"
    by code_simp
  have "FIELD_NAMES \<noteq> []" by (simp add: FIELD_NAMES_def)
  then have "read_csv (write_csv repr_whole [?a]) = Inr (map (read_back repr_whole) [?a])"
    using read_rows_as_rows [OF v, of repr_whole "[]"]
    by (simp add: read_csv_def write_csv_def make_action_header)
  with e show ?thesis by simp
qed






section \<open>Properties of the parser\<close>

lemma generate_all_append:
  "generate_all ev pre acc = Some (Inr acts) \<Longrightarrow>
   generate_all ev (pre @ post) acc = generate_all ev post acts"
  by (induction pre arbitrary: acc) (auto split: option.splits sum.splits)

text \<open>
  C4, as the code has it. With no loop open, the parser does not refuse the line
  \<open>ENDFOR\<close>: it appends the end marker to the script's command list. The error comes
  when Actions are generated: once the commands before the marker have generated
  theirs, \<open>generate_sequence\<close> raises \<open>ValueError\<close>, and no Sequence is made.
\<close>

theorem stray_ENDFOR_is_kept_by_parser_and_fails_at_generation:
  assumes "stack self = []" and "generate_all ev pre [] = Some (Inr acts)"
  shows "parse_lines self [''ENDFOR'']
           = Inr (self\<lparr>script_commands := script_commands self @ [ForLoopEnd]\<rparr>)
         \<and> generate_sequence ev (pre @ ForLoopEnd # post) = Some (Inl ValueError)"
proof -
  have a: "strip ''ENDFOR'' = ''ENDFOR''" by (simp add: strip_def is_space_def)
  have b: "make_command ''ENDFOR'' = Inr ForLoopEnd" by (simp add: make_command_def)
  have c: "parser_add_command self ForLoopEnd
             = Inr (self\<lparr>script_commands := script_commands self @ [ForLoopEnd]\<rparr>)"
    using assms(1) by (simp add: parser_add_command_def)
  have d: "generate_all ev (pre @ ForLoopEnd # post) [] = Some (Inl ValueError)"
    using generate_all_append [OF assms(2), of "ForLoopEnd # post"] by simp
  show ?thesis using a b c d by (simp add: generate_sequence_def)
qed

theorem stray_ENDFOR_is_kept_by_parser_and_fails_at_generation_witness:
  "stack ScriptParser_init = []
   \<and> generate_all (EventManager_init Map.empty [] [] None) [] [] = Some (Inr [])
   \<and> parse_lines ScriptParser_init [''ENDFOR'']
       = Inr (ScriptParser_init\<lparr>script_commands := script_commands ScriptParser_init @ [ForLoopEnd]\<rparr>)
   \<and> generate_sequence (EventManager_init Map.empty [] [] None) ([] @ ForLoopEnd # [])
       = Some (Inl ValueError)"
proof -
  have h1: "stack ScriptParser_init = []" by (simp add: ScriptParser_init_def)
  have h2: "generate_all (EventManager_init Map.empty [] [] None) [] [] = Some (Inr [])" by simp
  show ?thesis
    using h1 h2 stray_ENDFOR_is_kept_by_parser_and_fails_at_generation [OF h1 h2, of "[]"]
    by blast
qed

text \<open>
  C4 as stated fails: the script that is the single line \<open>ENDFOR\<close> is parsed without
  error, and the end marker is in the command list that results.
\<close>

theorem stray_ENDFOR_counterexample: "parse_script [''ENDFOR''] = Inr [ForLoopEnd]"
  by (simp add: parse_script_def ScriptParser_init_def strip_def is_space_def make_command_def
      parser_add_command_def)

section \<open>Properties of the sequencer\<close>

lemma execute_append:
  "execute rc off k (pre @ post) tr = execute rc off (k + length pre) post (execute rc off k pre tr)"
  by (induction pre arbitrary: k tr) (simp_all add: Let_def)

text \<open>
  C9. When the control loop reaches an Action \<open>a\<close> (after the Actions \<open>pre\<close>, at clock
  reading number \<open>k + length pre\<close>): if the time of \<open>a\<close> is before the current time,
  nothing is done for \<open>a\<close>, neither a sleep nor a dispatch, and the loop goes on with
  the next Action; otherwise the loop sleeps for exactly the delay (no call of sleep
  for a delay of zero) and then hands \<open>a\<close> to the executor.
\<close>

theorem execute_skips_late_action_and_waits_for_due_action:
  "execute rc off k (pre @ a # post) tr =
     (let reached = execute rc off k pre tr;
          now = current_time rc off (k + length pre);
          delay = time_of a - now
      in execute rc off (Suc (k + length pre)) post
           (if delay < 0 then reached
            else if delay = 0 then reached @ [execute_action a]
            else reached @ [Sleep delay, execute_action a]))"
  by (simp add: execute_append Let_def)

theorem execute_skips_late_action_and_waits_for_due_action_witness:
  "execute (\<lambda>k. 100 * int k) 5 0
     ([ActionPlay 3 PNone PNone] @ ActionPlay 200 PNone PNone # [ActionPlay 205 PNone PNone]) []
   = [Sleep 95, SubmitPlay (ActionPlay 200 PNone PNone), SubmitPlay (ActionPlay 205 PNone PNone)]"
  using execute_skips_late_action_and_waits_for_due_action
    [of "\<lambda>k. 100 * int k" 5 0 "[ActionPlay 3 PNone PNone]" "ActionPlay 200 PNone PNone"
        "[ActionPlay 205 PNone PNone]" "[]"]
  by (simp add: current_time_def)

section \<open>Properties of the loops\<close>

subsection \<open>ForIterLoop\<close>


lemma map_result_Cons:
  "map_result f (x # xs) = Inr r \<longleftrightarrow> (\<exists>y ys. f x = Inr y \<and> map_result f xs = Inr ys \<and> r = y # ys)"
  by (auto split: sum.splits)





subsection \<open>ForVarLoop\<close>



lemma var_loop_no_commands_runs_forever:
  assumes "v < end'"
  shows "var_loop ev step end' [] v actions = None"
proof (cases "var_loop ev step end' [] v actions")
  case None
  then show ?thesis .
next
  case (Some r)
  have "[] = ([]::leaf list) \<longrightarrow> \<not> v < end'"
    by (rule var_loop.raw_induct
          [where P = "\<lambda>ev step end' cs w acts r. cs = [] \<longrightarrow> \<not> w < end'", OF _ Some])
       (auto split: if_splits)
  with assms show ?thesis by simp
qed



text \<open>
  C2, at an input where the code and the claim part. A loop from 0 by 1 up to 4 over
  two commands: the code gives the first command the values 0 and 2 and the second the
  values 1 and 3, four Actions in all, where the claim has both commands run at each
  of the values 0, 1, 2 and 3. Over one command the loop from 0 by 1 up to 3 yields
  the three Actions of the values 0, 1 and 2, as the claim says.
\<close>

theorem ForVarLoop_advances_value_after_each_command:
  "ForVarLoop_generate_actions
     (EventManager_init Map.empty [(0, 63848278800000000), (1, 63848282400000000)] [] None)
     0 1 4 [Play ''MAGPRE 0'' (Some 0) ''a.mp3'' ''first'',
            Play ''MAGPRE 0'' (Some 0) ''b.mp3'' ''second'']
     = Some (Inr [ActionPlay 63848278800000000 (PStr ''a.mp3'') (PStr ''first (Mag. 00.0%)''),
                  ActionPlay 63848278836000000 (PStr ''b.mp3'') (PStr ''second (Mag. 01.0%)''),
                  ActionPlay 63848278872000000 (PStr ''a.mp3'') (PStr ''first (Mag. 02.0%)''),
                  ActionPlay 63848278908000000 (PStr ''b.mp3'') (PStr ''second (Mag. 03.0%)'')])
   \<and> ForVarLoop_generate_actions
     (EventManager_init Map.empty [(0, 63848278800000000), (1, 63848282400000000)] [] None)
     0 1 3 [Play ''MAGPRE 0'' (Some 0) ''a.mp3'' ''first'']
     = Some (Inr [ActionPlay 63848278800000000 (PStr ''a.mp3'') (PStr ''first (Mag. 00.0%)''),
                  ActionPlay 63848278836000000 (PStr ''a.mp3'') (PStr ''first (Mag. 01.0%)''),
                  ActionPlay 63848278872000000 (PStr ''a.mp3'') (PStr ''first (Mag. 02.0%)'')])"
  by code_simp

section \<open>Properties of the EventManager\<close>

subsection \<open>The bounds search\<close>




lemma last_rev_filter:
  "filter P xs = y # ys \<Longrightarrow> last (filter P (rev xs)) = y"
  by (simp add: rev_filter [symmetric] last_rev)










lemma get_magnitude_time_outside:
  assumes "mags = (if post then post_magnitudes ev else pre_magnitudes ev)"
    and "mags = [] \<or> target < fst (hd mags) \<or> fst (last mags) < target"
  shows "get_magnitude_time ev target post = Inl TypeError"
proof -
  obtain lo hi where fb: "find_bounds mags target fst = (lo, hi)"
    by (cases "find_bounds mags target fst")
  have lo_none: "get_magnitude_time ev target post = Inl TypeError"
    if "fst (find_bounds mags target fst) = None"
    using that unfolding get_magnitude_time_def Let_def assms(1) [symmetric] fb by simp
  have hi_none: "get_magnitude_time ev target post = Inl TypeError"
    if "snd (find_bounds mags target fst) = None"
    using that unfolding get_magnitude_time_def Let_def assms(1) [symmetric] fb
    by (simp split: option.splits)
  from assms(2) show ?thesis
  proof (elim disjE)
    assume "mags = []"
    then show ?thesis by (intro lo_none) (simp add: find_bounds_def)
  next
    assume lt: "target < fst (hd mags)"
    show ?thesis
    proof (cases mags)
      case Nil
      then show ?thesis by (intro lo_none) (simp add: find_bounds_def)
    next
      case (Cons x xs)
      with lt show ?thesis by (intro lo_none) (simp add: find_bounds_def)
    qed
  next
    assume gt: "fst (last mags) < target"
    show ?thesis
    proof (cases mags rule: rev_cases)
      case Nil
      then show ?thesis by (intro lo_none) (simp add: find_bounds_def)
    next
      case (snoc ys l)
      with gt show ?thesis by (intro hi_none) (simp add: find_bounds_def enumerate_append_eq)
    qed
  qed
qed

text \<open>
  C1, as the code has it. For an event name \<open>MAGPRE p\<close> that is not itself a key of
  the event table, with \<open>p\<close> the text of a number \<open>x\<close>: when the table of pre-magnitudes
  is empty, or the target \<open>x / 100\<close> is below its first magnitude or above its last
  (for an ascending table, its least and its greatest), \<open>get_time\<close> raises
  \<open>TypeError\<close>: one of the two bounds is not found, and \<open>get_magnitude_time\<close> unpacks
  it. The linear interpolation between the contacts is never reached. The same holds
  for \<open>MAGPOST p\<close> and the table of post-magnitudes.
\<close>

theorem get_time_magnitude_outside_table_raises:
  assumes "CHR '' '' \<notin> set p" and "py_float p = Inr x"
  shows "(events ev (''MAGPRE '' @ p) = None
          \<and> (pre_magnitudes ev = [] \<or> x / 100 < fst (hd (pre_magnitudes ev))
               \<or> fst (last (pre_magnitudes ev)) < x / 100)
          \<longrightarrow> get_time ev (''MAGPRE '' @ p) = Inl TypeError)
       \<and> (events ev (''MAGPOST '' @ p) = None
          \<and> (post_magnitudes ev = [] \<or> x / 100 < fst (hd (post_magnitudes ev))
               \<or> fst (last (post_magnitudes ev)) < x / 100)
          \<longrightarrow> get_time ev (''MAGPOST '' @ p) = Inl TypeError)"
proof -
  have pre: "split_on CHR '' '' (''MAGPRE '' @ p) = [''MAGPRE'', p]"
    using split_on_prefix [of "CHR '' ''" "''MAGPRE''" p] split_on_no_sep [OF assms(1)] by simp
  have post: "split_on CHR '' '' (''MAGPOST '' @ p) = [''MAGPOST'', p]"
    using split_on_prefix [of "CHR '' ''" "''MAGPOST''" p] split_on_no_sep [OF assms(1)] by simp
  have a: "get_time ev (''MAGPRE '' @ p) = Inl TypeError"
    if "events ev (''MAGPRE '' @ p) = None"
      and "pre_magnitudes ev = [] \<or> x / 100 < fst (hd (pre_magnitudes ev))
               \<or> fst (last (pre_magnitudes ev)) < x / 100"
    using that(1) pre assms(2)
      get_magnitude_time_outside [of "pre_magnitudes ev" False ev "x / 100"] that(2)
    by (simp add: get_time_def Let_def)
  have b: "get_time ev (''MAGPOST '' @ p) = Inl TypeError"
    if "events ev (''MAGPOST '' @ p) = None"
      and "post_magnitudes ev = [] \<or> x / 100 < fst (hd (post_magnitudes ev))
               \<or> fst (last (post_magnitudes ev)) < x / 100"
    using that(1) post assms(2)
      get_magnitude_time_outside [of "post_magnitudes ev" True ev "x / 100"] that(2)
    by (simp add: get_time_def Let_def)
  from a b show ?thesis by blast
qed

theorem get_time_magnitude_outside_table_raises_witness:
  "CHR '' '' \<notin> set ''90'' \<and> py_float ''90'' = Inr 90
   \<and> events (EventManager_init [''C1'' \<mapsto> 63848278800000000, ''C2'' \<mapsto> 63848282400000000]
               [(1 / 5, 63848279000000000), (4 / 5, 63848282000000000)] [] None) ''MAGPRE 90'' = None
   \<and> fst (last (pre_magnitudes (EventManager_init [''C1'' \<mapsto> 63848278800000000, ''C2'' \<mapsto> 63848282400000000]
               [(1 / 5, 63848279000000000), (4 / 5, 63848282000000000)] [] None))) < 90 / 100
   \<and> get_time (EventManager_init [''C1'' \<mapsto> 63848278800000000, ''C2'' \<mapsto> 63848282400000000]
               [(1 / 5, 63848279000000000), (4 / 5, 63848282000000000)] [] None) ''MAGPRE 90''
       = Inl TypeError"
proof -
  let ?ev = "EventManager_init [''C1'' \<mapsto> 63848278800000000, ''C2'' \<mapsto> 63848282400000000]
               [(1 / 5, 63848279000000000), (4 / 5, 63848282000000000)] [] None"
  have h1: "CHR '' '' \<notin> set ''90''" by simp
  have h2: "py_float ''90'' = Inr 90" by code_simp
  have h3: "events ?ev ''MAGPRE 90'' = None" by (simp add: EventManager_init_def)
  have h4: "fst (last (pre_magnitudes ?ev)) < 90 / 100" by (simp add: EventManager_init_def)
  from get_time_magnitude_outside_table_raises [OF h1 h2, of ?ev] h3 h4
  have "get_time ?ev ''MAGPRE 90'' = Inl TypeError" by simp
  with h1 h2 h3 h4 show ?thesis by blast
qed

subsection \<open>Interpolation\<close>









end
